theory Spec2Isabelle
  imports Complex_Main "HOL-Library.Multiset" "HOL-Library.AList" "HOL-Library.Log_Nat"
    "HOL-Library.Char_ord" "HOL-Library.List_Lexorder" "HOL-Library.Product_Lexorder"
begin

section \<open>Strings and integers of the host language\<close>

text \<open>
  A string is a list of characters, and a character stands for the Unicode code point
  of its number, so the strings here are the texts of code points below 256.
  \<open>str.strip()\<close> removes the white space of both ends. Below 256 the white space
  characters are tab, line feed, vertical tab, form feed, carriage return (9 to 13),
  the four separators \<open>0x1C\<close> to \<open>0x1F\<close>, the blank (32), the next-line control
  \<open>0x85\<close> (133) and the no-break space \<open>0xA0\<close> (160).
\<close>

definition is_space :: "char \<Rightarrow> bool" where
  "is_space c =
     (let n = (of_char c :: nat)
      in (9 \<le> n \<and> n \<le> 13) \<or> (28 \<le> n \<and> n \<le> 32) \<or> n = 133 \<or> n = 160)"

definition strip :: "string \<Rightarrow> string" where
  "strip s = rev (dropWhile is_space (rev (dropWhile is_space s)))"

text \<open>The decimal digits below 256 are \<open>0\<close> to \<open>9\<close>.\<close>

definition is_digit :: "char \<Rightarrow> bool" where
  "is_digit c = (let n = (of_char c :: nat) in 48 \<le> n \<and> n \<le> 57)"

definition digit_val :: "char \<Rightarrow> int" where
  "digit_val c = int (of_char c) - 48"

text \<open>
  \<open>int(s)\<close> in base ten: white space around the literal is ignored, then an optional
  sign, then decimal digits, where a single underscore may stand between two digits.
  Everything else raises \<open>ValueError\<close>, which is \<open>None\<close> here. \<open>digits acc n prev s\<close> reads
  the rest of the digit part: \<open>acc\<close> is the value read so far, \<open>n\<close> the number of
  digits read so far, and \<open>prev\<close> tells whether the previous character was a digit.
  A literal of more digits than the interpreter's limit, 4300 unless configured
  otherwise, raises \<open>ValueError\<close> too; the sign and the underscores do not count.
\<close>

fun digits :: "int \<Rightarrow> nat \<Rightarrow> bool \<Rightarrow> string \<Rightarrow> (int \<times> nat) option" where
  "digits acc n prev [] = (if prev then Some (acc, n) else None)"
| "digits acc n prev (c # cs) =
     (if is_digit c then digits (acc * 10 + digit_val c) (Suc n) True cs
      else if c = CHR ''_'' \<and> prev then digits acc n False cs
      else None)"

definition int_max_str_digits :: nat where
  "int_max_str_digits = 4300"

definition limited :: "(int \<times> nat) option \<Rightarrow> int option" where
  "limited parsed =
     (case parsed of
        None \<Rightarrow> None
      | Some (v, n) \<Rightarrow> if int_max_str_digits < n then None else Some v)"

definition py_int :: "string \<Rightarrow> int option" where
  "py_int s =
     (case strip s of
        [] \<Rightarrow> None
      | c # cs \<Rightarrow>
          if c = CHR ''-'' then map_option uminus (limited (digits 0 0 False cs))
          else if c = CHR ''+'' then limited (digits 0 0 False cs)
          else limited (digits 0 0 False (c # cs)))"

text \<open>\<open>str(n)\<close> of an integer, as an f-string renders it.\<close>

definition digit_char :: "nat \<Rightarrow> char" where
  "digit_char d = char_of (48 + d)"

fun str_nat :: "nat \<Rightarrow> string" where
  "str_nat n = (if n < 10 then [digit_char n] else str_nat (n div 10) @ [digit_char (n mod 10)])"

declare str_nat.simps [simp del]

definition str_int :: "int \<Rightarrow> string" where
  "str_int n = (if n < 0 then CHR ''-'' # str_nat (nat (- n)) else str_nat (nat n))"

text \<open>
  \<open>repr(s)\<close> of a string without quotes or escapes in it, and \<open>str\<close> of a set of such
  strings that the interpreter lists in the given order.
\<close>

definition repr_str :: "string \<Rightarrow> string" where
  "repr_str s = CHR 0x27 # s @ [CHR 0x27]"

fun comma_separated :: "string list \<Rightarrow> string" where
  "comma_separated [] = []"
| "comma_separated [x] = x"
| "comma_separated (x # y # ys) = x @ '', '' @ comma_separated (y # ys)"

definition str_set :: "string list \<Rightarrow> string" where
  "str_set listed = ''{'' @ comma_separated (map repr_str listed) @ ''}''"

section \<open>The data model of \<open>analysis.py\<close>\<close>

text \<open>
  A raw row is the dictionary that \<open>csv.DictReader\<close> yields for one line. A column of
  the header that the line has a field for holds the text of that field; a column
  beyond the last field of a short line holds \<open>None\<close>, the reader's \<open>restval\<close>. The
  surplus fields of a long line, which the reader keeps under the key \<open>None\<close>, are
  read by no function of the program and are left out. A valid record and an invalid
  record are the dictionaries that \<open>load_data\<close> appends to its two lists.
\<close>

datatype cell = Text string | NoneValue

type_synonym raw_row = "string \<rightharpoonup> cell"

record valid_record =
  city :: string
  region :: string
  num_sites :: int

record invalid_record =
  row :: nat
  data :: raw_row
  reason :: string

datatype error =
    FileNotFoundError string
  | ValueError string
  | AttributeError string
  | ZeroDivisionError
  | OverflowError
  | IntegrityError string
  | OperationalError string

text \<open>\<open>row.get(key, default)\<close>\<close>

definition dict_get :: "raw_row \<Rightarrow> string \<Rightarrow> cell \<Rightarrow> cell" where
  "dict_get r k d = (case r k of None \<Rightarrow> d | Some v \<Rightarrow> v)"

text \<open>
  \<open>v.strip()\<close> on what \<open>row.get\<close> returned: \<open>None\<close> has no such method, and the call
  raises \<open>AttributeError\<close>.
\<close>

definition str_strip :: "cell \<Rightarrow> error + string" where
  "str_strip v =
     (case v of
        Text s \<Rightarrow> Inr (strip s)
      | NoneValue \<Rightarrow>
          Inl (AttributeError
                 (repr_str ''NoneType'' @ '' object has no attribute '' @ repr_str ''strip'')))"

definition valid_regions :: "string list" where
  "valid_regions =
     [''Ashanti'', ''Western'', ''Upper East'', ''Greater Accra'', ''Northern'',
      ''Central'', ''Bono'', ''Upper West'', ''Volta'', ''Eastern'', ''Bono East'',
      ''Savannah'', ''Oti'', ''North East'', ''Ahafo'', ''Western North'']"

definition required_headers :: "string list" where
  "required_headers = [''City'', ''Region'', ''Number_of_Galamsay_Sites'']"

section \<open>The validator: \<open>load_data\<close>\<close>

text \<open>
  The checks of the loop body (lines 60 to 121) on the three trimmed fields, in the
  order of the source; the first that fails gives the invalid record. \<open>Inl\<close> is the
  entry appended to \<open>invalid_records\<close>, \<open>Inr\<close> the one appended to \<open>valid_records\<close>.
\<close>

definition check_row ::
  "nat \<Rightarrow> raw_row \<Rightarrow> string \<Rightarrow> string \<Rightarrow> string \<Rightarrow> invalid_record + valid_record" where
  "check_row row_num r =
     (\<lambda>city region sites_str.
      if city = [] then
        Inl \<lparr>row = row_num, data = r, reason = ''Missing city name''\<rparr>
      else if region = [] then
        Inl \<lparr>row = row_num, data = r, reason = ''Missing region''\<rparr>
      else if region \<notin> set valid_regions then
        Inl \<lparr>row = row_num, data = r, reason = ''Invalid region: '' @ region\<rparr>
      else
        (case py_int sites_str of
           None \<Rightarrow>
             Inl \<lparr>row = row_num, data = r,
                  reason = ''Non-numeric site count: '' @ sites_str\<rparr>
         | Some n \<Rightarrow>
             if n < 0 then
               Inl \<lparr>row = row_num, data = r,
                    reason = ''Negative site count: '' @ str_int n\<rparr>
             else if n > 500 then
               Inl \<lparr>row = row_num, data = r,
                    reason = ''Unrealistic site count (outlier): '' @ str_int n\<rparr>
             else
               Inr \<lparr>city = city, region = region, num_sites = n\<rparr>))"

text \<open>
  The whole body of the loop (lines 56 to 121): the three fields are read and trimmed,
  each of which raises \<open>AttributeError\<close> on a field that is \<open>None\<close>, and then the checks
  run. The outer \<open>Inl\<close> is the exception that leaves the loop; \<open>and_then x f\<close> goes on
  with \<open>f\<close> when \<open>x\<close> raised nothing.
\<close>

definition and_then :: "error + 'a \<Rightarrow> ('a \<Rightarrow> error + 'b) \<Rightarrow> error + 'b" where
  "and_then x f = (case x of Inl e \<Rightarrow> Inl e | Inr v \<Rightarrow> f v)"

definition validate_row :: "nat \<Rightarrow> raw_row \<Rightarrow> error + (invalid_record + valid_record)" where
  "validate_row row_num r =
     and_then (str_strip (dict_get r ''City'' (Text ''''))) (\<lambda>city.
     and_then (str_strip (dict_get r ''Region'' (Text ''''))) (\<lambda>region.
     and_then (str_strip (dict_get r ''Number_of_Galamsay_Sites'' (Text ''''))) (\<lambda>sites_str.
     Inr (check_row row_num r city region sites_str))))"

text \<open>
  The loop itself: \<open>enumerate(reader, start=2)\<close> numbers the rows from 2, and each row
  is appended to one of the two lists, unless its body raises.
\<close>

fun validate_rows ::
  "nat \<Rightarrow> raw_row list \<Rightarrow> valid_record list \<Rightarrow> invalid_record list
     \<Rightarrow> error + (valid_record list \<times> invalid_record list)" where
  "validate_rows row_num [] valid invalid = Inr (valid, invalid)"
| "validate_rows row_num (r # rs) valid invalid =
     (case validate_row row_num r of
        Inl e \<Rightarrow> Inl e
      | Inr (Inl bad) \<Rightarrow> validate_rows (Suc row_num) rs valid (invalid @ [bad])
      | Inr (Inr good) \<Rightarrow> validate_rows (Suc row_num) rs (valid @ [good]) invalid)"

text \<open>
  What \<open>load_data\<close> finds at its path: no file; a file whose header line the CSV reader
  cannot read; or a header (\<open>None\<close> for a file with no line at all) and the rows the
  reader delivers, followed by the \<open>csv.Error\<close> it raises after them, if any. A file
  that exists and cannot be opened or decoded is not part of this model.

  The message for a missing header formats the set \<open>required_headers\<close>, whose elements
  the interpreter lists in an order that depends on the hash seed of the process;
  \<open>header_order\<close> is that order. An \<open>AttributeError\<close> of the loop body is not a
  \<open>csv.Error\<close> and leaves \<open>load_data\<close> as it is.
\<close>

datatype csv_source =
    NoSuchFile string
  | CsvError string
  | CsvRows "string list option" "raw_row list" "string option"

definition load_data ::
  "string list \<Rightarrow> csv_source \<Rightarrow> error + (valid_record list \<times> invalid_record list)" where
  "load_data header_order src =
     (case src of
        NoSuchFile filepath \<Rightarrow> Inl (FileNotFoundError (''Data file not found: '' @ filepath))
      | CsvError e \<Rightarrow> Inl (ValueError (''Error parsing CSV file: '' @ e))
      | CsvRows fieldnames rs err \<Rightarrow>
          if \<not> set required_headers \<subseteq> set (case fieldnames of None \<Rightarrow> [] | Some fs \<Rightarrow> fs) then
            Inl (ValueError (''CSV file missing required headers: '' @ str_set header_order))
          else
            (case validate_rows 2 rs [] [] of
               Inl e \<Rightarrow> Inl e
             | Inr (valid_records, invalid_records) \<Rightarrow>
                 (case err of
                    Some e \<Rightarrow> Inl (ValueError (''Error parsing CSV file: '' @ e))
                  | None \<Rightarrow>
                      if valid_records = [] then
                        Inl (ValueError ''No valid data records found in the file'')
                      else Inr (valid_records, invalid_records))))"

text \<open>
  The two projections of a list of outcomes: the entries of the left kind and those
  of the right kind, each in the order of the list.
\<close>

fun lefts :: "('a + 'b) list \<Rightarrow> 'a list" where
  "lefts [] = []"
| "lefts (Inl a # xs) = a # lefts xs"
| "lefts (Inr b # xs) = lefts xs"

fun rights :: "('a + 'b) list \<Rightarrow> 'b list" where
  "rights [] = []"
| "rights (Inl a # xs) = rights xs"
| "rights (Inr b # xs) = b # rights xs"

text \<open>A row all of whose required columns hold text, as every line does that is not short.\<close>

definition text_row :: "raw_row \<Rightarrow> bool" where
  "text_row r = list_all (\<lambda>k. dict_get r k (Text '''') \<noteq> NoneValue) required_headers"

subsection \<open>The validation rules as the specification words them\<close>

text \<open>
  The specification names six reasons for rejecting a row, each a check on the trimmed
  fields, in a fixed precedence; the first check that fails gives the single reason,
  and a row that passes them all is a valid record. \<open>spec_validate\<close> is that reading,
  to be compared with \<^const>\<open>validate_row\<close>. Its rows map a column to a string, so a
  column without text reads as the empty string.
\<close>

datatype check =
  MissingCity | MissingRegion | RegionNotInWhitelist | NonNumericCount | NegativeCount
  | CountOver500

definition field :: "raw_row \<Rightarrow> string \<Rightarrow> string" where
  "field r k = (case dict_get r k (Text '''') of Text s \<Rightarrow> strip s | NoneValue \<Rightarrow> [])"

fun fails :: "check \<Rightarrow> raw_row \<Rightarrow> bool" where
  "fails MissingCity r = (field r ''City'' = [])"
| "fails MissingRegion r = (field r ''Region'' = [])"
| "fails RegionNotInWhitelist r = (field r ''Region'' \<notin> set valid_regions)"
| "fails NonNumericCount r = (py_int (field r ''Number_of_Galamsay_Sites'') = None)"
| "fails NegativeCount r =
     (case py_int (field r ''Number_of_Galamsay_Sites'') of None \<Rightarrow> False | Some n \<Rightarrow> n < 0)"
| "fails CountOver500 r =
     (case py_int (field r ''Number_of_Galamsay_Sites'') of None \<Rightarrow> False | Some n \<Rightarrow> 500 < n)"

definition precedence :: "check list" where
  "precedence =
     [MissingCity, MissingRegion, RegionNotInWhitelist, NonNumericCount, NegativeCount,
      CountOver500]"

definition parsed_count :: "raw_row \<Rightarrow> int" where
  "parsed_count r =
     (case py_int (field r ''Number_of_Galamsay_Sites'') of None \<Rightarrow> 0 | Some n \<Rightarrow> n)"

fun reason_text :: "check \<Rightarrow> raw_row \<Rightarrow> string" where
  "reason_text MissingCity r = ''Missing city name''"
| "reason_text MissingRegion r = ''Missing region''"
| "reason_text RegionNotInWhitelist r = ''Invalid region: '' @ field r ''Region''"
| "reason_text NonNumericCount r =
     ''Non-numeric site count: '' @ field r ''Number_of_Galamsay_Sites''"
| "reason_text NegativeCount r = ''Negative site count: '' @ str_int (parsed_count r)"
| "reason_text CountOver500 r =
     ''Unrealistic site count (outlier): '' @ str_int (parsed_count r)"

definition spec_validate :: "nat \<Rightarrow> raw_row \<Rightarrow> invalid_record + valid_record" where
  "spec_validate row_num r =
     (case find (\<lambda>c. fails c r) precedence of
        Some c \<Rightarrow> Inl \<lparr>row = row_num, data = r, reason = reason_text c r\<rparr>
      | None \<Rightarrow>
          Inr \<lparr>city = field r ''City'', region = field r ''Region'',
               num_sites = parsed_count r\<rparr>)"

section \<open>Dictionaries in insertion order\<close>

text \<open>
  A Python dictionary keeps its keys in the order of their first insertion, and the
  aggregator depends on it. Such a dictionary is an association list with distinct
  keys: \<open>d[k] = v\<close> is \<^const>\<open>AList.update\<close>, which replaces the value in place when the
  key is there and appends the pair otherwise; \<open>d.items()\<close> is the list itself.
\<close>

definition odict_get :: "('k \<times> 'v) list \<Rightarrow> 'k \<Rightarrow> 'v \<Rightarrow> 'v" where
  "odict_get d k dflt = (case map_of d k of None \<Rightarrow> dflt | Some v \<Rightarrow> v)"

section \<open>Floating point numbers of the host language\<close>

text \<open>
  A \<open>float\<close> is an IEEE 754 binary64 number. The finite ones are rational numbers,
  and only those arise here, because the operations below raise \<open>OverflowError\<close>
  instead of returning an infinity; the two zeros are identified. \<open>rne\<close> rounds to the
  nearest integer, ties to the even one; \<open>binexp q\<close> is the exponent \<open>e\<close> with
  \<open>2 ^ e \<le> \<bar>q\<bar> < 2 ^ (e + 1)\<close>; \<open>fl q\<close> is the binary64 number nearest to \<open>q\<close>, ties to
  even, with 53 significant bits and the subnormal numbers below \<open>2 ^ - 1022\<close>. A
  rounded value of \<open>2 ^ 1024\<close> or more in magnitude, that is of exponent 1024 or more,
  is beyond the largest float.
\<close>

type_synonym float = rat

definition rne :: "rat \<Rightarrow> int" where
  "rne q =
     (let f = \<lfloor>q\<rfloor>; d = q - of_int f
      in if d < 1 / 2 then f else if 1 / 2 < d then f + 1 else if even f then f else f + 1)"

definition binexp :: "rat \<Rightarrow> int" where
  "binexp q =
     (let (a, b) = quotient_of \<bar>q\<bar>;
          e = int (floorlog 2 (nat a)) - int (floorlog 2 (nat b))
      in if \<bar>q\<bar> < power_int 2 e then e - 1 else e)"

definition fl :: "rat \<Rightarrow> float" where
  "fl q =
     (if q = 0 then 0
      else let ulp = power_int 2 (max (binexp q) (- 1022) - 52)
           in of_int (rne (q / ulp)) * ulp)"

definition finite_float :: "rat \<Rightarrow> error + float" where
  "finite_float x = (if x \<noteq> 0 \<and> 1024 \<le> binexp x then Inl OverflowError else Inr x)"

text \<open>
  \<open>a / b\<close> on integers is the correctly rounded quotient. \<open>round(x, ndigits)\<close> rounds
  the exact value of \<open>x\<close> to \<open>ndigits\<close> decimal places, ties to even, and returns the
  float nearest to that decimal number.
\<close>

definition py_truediv :: "int \<Rightarrow> int \<Rightarrow> error + float" where
  "py_truediv a b =
     (if b = 0 then Inl ZeroDivisionError else finite_float (fl (of_int a / of_int b)))"

definition py_round :: "float \<Rightarrow> nat \<Rightarrow> error + float" where
  "py_round x ndigits = finite_float (fl (of_int (rne (x * 10 ^ ndigits)) / 10 ^ ndigits))"

section \<open>The aggregator\<close>

definition get_total_sites :: "valid_record list \<Rightarrow> int" where
  "get_total_sites records = (if records = [] then 0 else sum_list (map num_sites records))"

text \<open>
  \<open>max(items, key=f)\<close> walks the items and replaces the best one so far only by an
  item with a strictly larger key, so the first of several maximal items is returned.
\<close>

fun max_by :: "('a \<Rightarrow> int) \<Rightarrow> 'a \<Rightarrow> 'a list \<Rightarrow> 'a" where
  "max_by f best [] = best"
| "max_by f best (x # xs) = max_by f (if f best < f x then x else best) xs"

definition py_max :: "('a \<Rightarrow> int) \<Rightarrow> 'a list \<Rightarrow> error + 'a" where
  "py_max f xs =
     (case xs of
        [] \<Rightarrow> Inl (ValueError ''max() arg is an empty sequence'')
      | x # rest \<Rightarrow> Inr (max_by f x rest))"

text \<open>The loop of lines 165 to 167, on the dictionary \<open>region_totals\<close>.\<close>

fun region_totals :: "valid_record list \<Rightarrow> (string \<times> int) list \<Rightarrow> (string \<times> int) list" where
  "region_totals [] d = d"
| "region_totals (r # rs) d =
     region_totals rs (AList.update (region r) (odict_get d (region r) 0 + num_sites r) d)"

definition get_region_with_highest_sites :: "valid_record list \<Rightarrow> error + (string \<times> int)" where
  "get_region_with_highest_sites records =
     (if records = [] then Inl (ValueError ''Cannot determine highest region from empty data'')
      else py_max snd (region_totals records []))"

text \<open>
  \<open>sorted(xs, key=f, reverse=True)\<close> is a stable sort in descending order of the key:
  records with equal keys keep their order. \<^const>\<open>sort_key\<close> on the negated key is
  that list.
\<close>

definition get_cities_above_threshold :: "valid_record list \<Rightarrow> int \<Rightarrow> error + valid_record list" where
  "get_cities_above_threshold records threshold =
     (if threshold < 0 then Inl (ValueError ''Threshold cannot be negative'')
      else Inr (sort_key (\<lambda>r. - num_sites r) (filter (\<lambda>r. threshold < num_sites r) records)))"

text \<open>The grouping loop of lines 212 to 216 (and 241 to 245), on \<open>region_data\<close>.\<close>

fun region_data :: "valid_record list \<Rightarrow> (string \<times> int list) list \<Rightarrow> (string \<times> int list) list" where
  "region_data [] d = d"
| "region_data (r # rs) d =
     region_data rs (AList.update (region r) (odict_get d (region r) [] @ [num_sites r]) d)"

text \<open>
  \<open>round(sum(sites) / len(sites), 2)\<close>: an exception of the division propagates, and
  its result is rounded otherwise.
\<close>

fun round_result :: "error + float \<Rightarrow> nat \<Rightarrow> error + float" where
  "round_result (Inl e) ndigits = Inl e"
| "round_result (Inr x) ndigits = py_round x ndigits"

definition rounded_mean :: "int list \<Rightarrow> error + float" where
  "rounded_mean sites = round_result (py_truediv (sum_list sites) (int (length sites))) 2"

fun averages :: "(string \<times> int list) list \<Rightarrow> (string \<times> float) list \<Rightarrow> error + (string \<times> float) list" where
  "averages [] acc = Inr acc"
| "averages ((reg, sites) # rest) acc =
     (case rounded_mean sites of
        Inl e \<Rightarrow> Inl e
      | Inr avg \<Rightarrow> averages rest (AList.update reg avg acc))"

definition get_average_sites_per_region :: "valid_record list \<Rightarrow> error + (string \<times> float) list" where
  "get_average_sites_per_region records =
     (if records = [] then Inr [] else averages (region_data records []) [])"

record region_stats =
  stats_region :: string
  stats_total_sites :: int
  city_count :: nat
  average_sites :: float
  max_sites :: int
  min_sites :: int

text \<open>
  \<open>max(sites)\<close> and \<open>min(sites)\<close> on a list of integers: \<open>min\<close> walks the list and
  replaces the least item so far only by a strictly smaller one.
\<close>

definition py_max_list :: "int list \<Rightarrow> error + int" where
  "py_max_list xs =
     (case xs of [] \<Rightarrow> Inl (ValueError ''max() arg is an empty sequence'')
      | x # rest \<Rightarrow> Inr (max_by id x rest))"

definition py_min_list :: "int list \<Rightarrow> error + int" where
  "py_min_list xs =
     (case xs of [] \<Rightarrow> Inl (ValueError ''min() arg is an empty sequence'')
      | x # rest \<Rightarrow> Inr (fold (\<lambda>y lowest. if y < lowest then y else lowest) rest x))"

fun summaries :: "(string \<times> int list) list \<Rightarrow> region_stats list \<Rightarrow> error + region_stats list" where
  "summaries [] acc = Inr acc"
| "summaries ((reg, sites) # rest) acc =
     (case rounded_mean sites of
        Inl e \<Rightarrow> Inl e
      | Inr avg \<Rightarrow>
         (case py_max_list sites of
            Inl e \<Rightarrow> Inl e
          | Inr hi \<Rightarrow>
             (case py_min_list sites of
                Inl e \<Rightarrow> Inl e
              | Inr lo \<Rightarrow>
                  summaries rest
                    (acc @ [\<lparr>stats_region = reg, stats_total_sites = sum_list sites,
                             city_count = length sites, average_sites = avg,
                             max_sites = hi, min_sites = lo\<rparr>]))))"

definition get_region_summary :: "valid_record list \<Rightarrow> error + region_stats list" where
  "get_region_summary records =
     (if records = [] then Inr []
      else (case summaries (region_data records []) [] of
              Inl e \<Rightarrow> Inl e
            | Inr summary \<Rightarrow> Inr (sort_key (\<lambda>s. - stats_total_sites s) summary)))"

section \<open>The orchestrator: \<open>run_full_analysis\<close>\<close>

text \<open>
  The dictionary that \<open>run_full_analysis\<close> returns, and its two nested dictionaries
  \<open>region_with_highest_sites\<close> and \<open>cities_above_threshold\<close>.
\<close>

record highest_sites =
  highest_region :: string
  highest_total_sites :: int

record cities_above =
  above_threshold :: int
  above_count :: nat
  above_cities :: "valid_record list"

record analysis_results =
  total_sites :: int
  total_valid_records :: nat
  total_invalid_records :: nat
  region_with_highest_sites :: highest_sites
  cities_above_threshold :: cities_above
  average_sites_per_region :: "(string \<times> float) list"
  region_summary :: "region_stats list"
  invalid_records :: "invalid_record list"
  valid_data :: "valid_record list"

definition run_full_analysis ::
  "string list \<Rightarrow> csv_source \<Rightarrow> int \<Rightarrow> error + analysis_results" where
  "run_full_analysis header_order src thr =
     (case load_data header_order src of
        Inl e \<Rightarrow> Inl e
      | Inr (valid, invalid) \<Rightarrow>
         (case get_region_with_highest_sites valid of
            Inl e \<Rightarrow> Inl e
          | Inr (hi_region, hi_count) \<Rightarrow>
             (case get_cities_above_threshold valid thr of
                Inl e \<Rightarrow> Inl e
              | Inr selected \<Rightarrow>
                 (case get_average_sites_per_region valid of
                    Inl e \<Rightarrow> Inl e
                  | Inr avgs \<Rightarrow>
                     (case get_region_summary valid of
                        Inl e \<Rightarrow> Inl e
                      | Inr summary \<Rightarrow>
                          Inr \<lparr>total_sites = get_total_sites valid,
                               total_valid_records = length valid,
                               total_invalid_records = length invalid,
                               region_with_highest_sites =
                                 \<lparr>highest_region = hi_region, highest_total_sites = hi_count\<rparr>,
                               cities_above_threshold =
                                 \<lparr>above_threshold = thr, above_count = length selected,
                                  above_cities = selected\<rparr>,
                               average_sites_per_region = avgs,
                               region_summary = summary,
                               invalid_records = invalid,
                               valid_data = valid\<rparr>)))))"

section \<open>The store: \<open>database.py\<close>\<close>

subsection \<open>Serialized collections\<close>

text \<open>
  The objects that \<open>json.dumps\<close> takes and \<open>json.loads\<close> returns: numbers, strings,
  lists and dictionaries with string keys. The three collections of a result that are
  stored as text are such objects.
\<close>

datatype json =
    JNull
  | JBool bool
  | JInt int
  | JFloat float
  | JStr string
  | JArr "json list"
  | JObj "(string \<times> json) list"

definition average_per_region_object :: "(string \<times> float) list \<Rightarrow> json" where
  "average_per_region_object avgs = JObj (map (\<lambda>(g, v). (g, JFloat v)) avgs)"

definition region_stats_object :: "region_stats \<Rightarrow> json" where
  "region_stats_object s =
     JObj [(''region'', JStr (stats_region s)),
           (''total_sites'', JInt (stats_total_sites s)),
           (''city_count'', JInt (int (city_count s))),
           (''average_sites'', JFloat (average_sites s)),
           (''max_sites'', JInt (max_sites s)),
           (''min_sites'', JInt (min_sites s))]"

definition valid_record_object :: "valid_record \<Rightarrow> json" where
  "valid_record_object r =
     JObj [(''city'', JStr (city r)), (''region'', JStr (region r)),
           (''num_sites'', JInt (num_sites r))]"

text \<open>
  The \<open>json\<close> module is not code of this repository: \<open>json.dumps\<close> and \<open>json.loads\<close>
  are parameters of the operations that call them.
\<close>

record codec =
  dumps :: "json \<Rightarrow> string"
  loads :: "string \<Rightarrow> error + json"

subsection \<open>Tables and rows\<close>

text \<open>
  The rows of the three tables, one field per column. The columns \<open>id\<close> are filled by
  \<open>AUTOINCREMENT\<close> and the time stamps by \<open>CURRENT_TIMESTAMP\<close>. An \<open>INTEGER\<close> column
  takes a 64-bit signed integer; binding a larger Python integer raises
  \<open>OverflowError\<close>. The three text columns of \<open>invalid_records\<close> that hold the raw
  fields are declared without \<open>NOT NULL\<close>, and take \<open>None\<close> as \<open>NULL\<close>.
\<close>

record site_row =
  site_id :: nat
  site_city :: string
  site_region :: string
  site_num_sites :: int
  site_created_at :: string
  site_batch_id :: string

record log_row =
  log_id :: nat
  log_batch_id :: string
  log_analysis_timestamp :: string
  log_total_sites :: int
  log_total_valid_records :: int
  log_total_invalid_records :: int
  log_highest_region :: string
  log_highest_region_sites :: int
  log_threshold_used :: int
  log_cities_above_threshold_count :: int
  average_per_region_json :: string
  region_summary_json :: string
  cities_above_threshold_json :: string

record invalid_row =
  bad_id :: nat
  bad_batch_id :: string
  bad_row_number :: int
  bad_city :: cell
  bad_region :: cell
  bad_num_sites_raw :: cell
  bad_reason :: string
  bad_created_at :: string

datatype schema_object = Table | Index string string

text \<open>
  The content of a database file: the schema (\<open>sqlite_master\<close>: the named tables and
  indexes, in creation order), the rows of the three tables, and the last \<open>id\<close> that
  each table has given out (\<open>sqlite_sequence\<close>). A table of one of the three names is
  taken to have the columns that \<open>init_database\<close> declares.
\<close>

record database =
  sqlite_master :: "(string \<times> schema_object) list"
  galamsay_sites :: "site_row list"
  analysis_log :: "log_row list"
  invalid_records_table :: "invalid_row list"
  sites_seq :: nat
  log_seq :: nat
  invalid_seq :: nat

definition empty_database :: database where
  "empty_database =
     \<lparr>sqlite_master = [], galamsay_sites = [], analysis_log = [],
      invalid_records_table = [], sites_seq = 0, log_seq = 0, invalid_seq = 0\<rparr>"

definition is_table :: "database \<Rightarrow> string \<Rightarrow> bool" where
  "is_table db name = (map_of (sqlite_master db) name = Some Table)"

definition int64 :: "int \<Rightarrow> bool" where
  "int64 n = (- (2 ^ 63) \<le> n \<and> n < 2 ^ 63)"

subsection \<open>Statements\<close>

text \<open>
  \<open>CREATE TABLE IF NOT EXISTS\<close> does nothing when the table exists, and fails when
  the name is that of an index. \<open>CREATE INDEX IF NOT EXISTS\<close> needs its table, fails
  when the name is that of a table, and does nothing when the index exists.
\<close>

definition create_table_if_not_exists :: "string \<Rightarrow> database \<Rightarrow> error + database" where
  "create_table_if_not_exists name db =
     (case map_of (sqlite_master db) name of
        Some Table \<Rightarrow> Inr db
      | Some (Index t c) \<Rightarrow> Inl (OperationalError (''there is already an index named '' @ name))
      | None \<Rightarrow> Inr (db\<lparr>sqlite_master := sqlite_master db @ [(name, Table)]\<rparr>))"

definition create_index_if_not_exists ::
  "string \<Rightarrow> string \<Rightarrow> string \<Rightarrow> database \<Rightarrow> error + database" where
  "create_index_if_not_exists name tbl col db =
     (if \<not> is_table db tbl then Inl (OperationalError (''no such table: main.'' @ tbl))
      else
        (case map_of (sqlite_master db) name of
           Some Table \<Rightarrow> Inl (OperationalError (''there is already a table named '' @ name))
         | Some (Index t c) \<Rightarrow> Inr db
         | None \<Rightarrow> Inr (db\<lparr>sqlite_master := sqlite_master db @ [(name, Index tbl col)]\<rparr>)))"

text \<open>
  The three \<open>INSERT\<close> statements of \<open>save_analysis_to_database\<close>, with the batch
  identifier. \<open>CURRENT_TIMESTAMP\<close> is read from the system clock at each statement:
  \<open>now t n\<close> is the time stamp that the row of table \<open>t\<close> gets which is given the
  \<open>id\<close> \<open>n\<close>. The table \<open>analysis_log\<close> declares \<open>batch_id\<close> \<open>UNIQUE\<close>.
\<close>

type_synonym clock = "string \<Rightarrow> nat \<Rightarrow> string"

definition insert_site :: "string \<Rightarrow> clock \<Rightarrow> valid_record \<Rightarrow> database \<Rightarrow> error + database" where
  "insert_site batch_id now r db =
     (if \<not> is_table db ''galamsay_sites'' then
        Inl (OperationalError ''no such table: galamsay_sites'')
      else if \<not> int64 (num_sites r) then Inl OverflowError
      else
        Inr (db\<lparr>galamsay_sites := galamsay_sites db @
                  [\<lparr>site_id = Suc (sites_seq db), site_city = city r, site_region = region r,
                    site_num_sites = num_sites r,
                    site_created_at = now ''galamsay_sites'' (Suc (sites_seq db)),
                    site_batch_id = batch_id\<rparr>],
                sites_seq := Suc (sites_seq db)\<rparr>))"

definition log_entry :: "codec \<Rightarrow> string \<Rightarrow> clock \<Rightarrow> analysis_results \<Rightarrow> nat \<Rightarrow> log_row" where
  "log_entry cdc batch_id now res n =
     \<lparr>log_id = n, log_batch_id = batch_id, log_analysis_timestamp = now ''analysis_log'' n,
      log_total_sites = total_sites res,
      log_total_valid_records = int (total_valid_records res),
      log_total_invalid_records = int (total_invalid_records res),
      log_highest_region = highest_region (region_with_highest_sites res),
      log_highest_region_sites = highest_total_sites (region_with_highest_sites res),
      log_threshold_used = above_threshold (cities_above_threshold res),
      log_cities_above_threshold_count = int (above_count (cities_above_threshold res)),
      average_per_region_json =
        dumps cdc (average_per_region_object (average_sites_per_region res)),
      region_summary_json = dumps cdc (JArr (map region_stats_object (region_summary res))),
      cities_above_threshold_json =
        dumps cdc (JArr (map valid_record_object (above_cities (cities_above_threshold res))))\<rparr>"

definition insert_log :: "codec \<Rightarrow> string \<Rightarrow> clock \<Rightarrow> analysis_results \<Rightarrow> database \<Rightarrow> error + database" where
  "insert_log cdc batch_id now res db =
     (let entry = log_entry cdc batch_id now res (Suc (log_seq db))
      in if \<not> is_table db ''analysis_log'' then
           Inl (OperationalError ''no such table: analysis_log'')
         else if \<not> (int64 (log_total_sites entry) \<and> int64 (log_total_valid_records entry)
                   \<and> int64 (log_total_invalid_records entry)
                   \<and> int64 (log_highest_region_sites entry)
                   \<and> int64 (log_threshold_used entry)
                   \<and> int64 (log_cities_above_threshold_count entry)) then
           Inl OverflowError
         else if batch_id \<in> log_batch_id ` set (analysis_log db) then
           Inl (IntegrityError ''UNIQUE constraint failed: analysis_log.batch_id'')
         else
           Inr (db\<lparr>analysis_log := analysis_log db @ [entry], log_seq := Suc (log_seq db)\<rparr>))"

definition insert_invalid :: "string \<Rightarrow> clock \<Rightarrow> invalid_record \<Rightarrow> database \<Rightarrow> error + database" where
  "insert_invalid batch_id now bad db =
     (if \<not> is_table db ''invalid_records'' then
        Inl (OperationalError ''no such table: invalid_records'')
      else if \<not> int64 (int (row bad)) then Inl OverflowError
      else
        Inr (db\<lparr>invalid_records_table := invalid_records_table db @
                  [\<lparr>bad_id = Suc (invalid_seq db), bad_batch_id = batch_id,
                    bad_row_number = int (row bad),
                    bad_city = dict_get (data bad) ''City'' (Text ''''),
                    bad_region = dict_get (data bad) ''Region'' (Text ''''),
                    bad_num_sites_raw =
                      dict_get (data bad) ''Number_of_Galamsay_Sites'' (Text ''''),
                    bad_reason = reason bad,
                    bad_created_at = now ''invalid_records'' (Suc (invalid_seq db))\<rparr>],
                invalid_seq := Suc (invalid_seq db)\<rparr>))"

subsection \<open>Connections and transactions\<close>

text \<open>
  A connection sees the committed content of the file and its own pending changes.
  A schema statement outside a transaction is committed at once; an \<open>INSERT\<close> opens a
  transaction implicitly, and its change stays pending until \<open>commit\<close>. Closing the
  connection, which \<open>get_db_connection\<close> does on every exit, leaves the committed
  content in the file: pending changes are lost. A statement that fails changes
  nothing.
\<close>

record connection =
  committed :: database
  pending :: database
  in_transaction :: bool

definition connect :: "database \<Rightarrow> connection" where
  "connect db = \<lparr>committed = db, pending = db, in_transaction = False\<rparr>"

definition commit :: "connection \<Rightarrow> connection" where
  "commit c = c\<lparr>committed := pending c, in_transaction := False\<rparr>"

definition close :: "connection \<Rightarrow> database" where
  "close c = committed c"

definition execute_ddl :: "(database \<Rightarrow> error + database) \<Rightarrow> connection \<Rightarrow> error + connection" where
  "execute_ddl stmt c =
     (case stmt (pending c) of
        Inl e \<Rightarrow> Inl e
      | Inr d \<Rightarrow> Inr (if in_transaction c then c\<lparr>pending := d\<rparr>
                      else c\<lparr>committed := d, pending := d\<rparr>))"

definition execute_insert :: "(database \<Rightarrow> error + database) \<Rightarrow> connection \<Rightarrow> error + connection" where
  "execute_insert stmt c =
     (case stmt (pending c) of
        Inl e \<Rightarrow> Inl e
      | Inr d \<Rightarrow> Inr (c\<lparr>pending := d, in_transaction := True\<rparr>))"

text \<open>
  A sequence of \<open>cursor.execute\<close> calls: the first that raises ends the sequence, with
  the connection as it was before that statement.
\<close>

fun run :: "(connection \<Rightarrow> error + connection) list \<Rightarrow> connection \<Rightarrow> error \<times> connection + connection" where
  "run [] c = Inr c"
| "run (s # ss) c = (case s c of Inl e \<Rightarrow> Inl (e, c) | Inr c' \<Rightarrow> run ss c')"

subsection \<open>The operations\<close>

text \<open>
  Each operation takes the content of the database file and returns its outcome, a
  value or the exception raised, together with the content of the file afterwards.
\<close>

definition init_database :: "database \<Rightarrow> (error + unit) \<times> database" where
  "init_database db =
     (case run
        [execute_ddl (create_table_if_not_exists ''galamsay_sites''),
         execute_ddl (create_table_if_not_exists ''analysis_log''),
         execute_ddl (create_table_if_not_exists ''invalid_records''),
         execute_ddl (create_index_if_not_exists ''idx_galamsay_region'' ''galamsay_sites'' ''region''),
         execute_ddl (create_index_if_not_exists ''idx_galamsay_batch'' ''galamsay_sites'' ''batch_id''),
         execute_ddl (create_index_if_not_exists ''idx_analysis_batch'' ''analysis_log'' ''batch_id'')]
        (connect db) of
        Inl (e, c) \<Rightarrow> (Inl e, close c)
      | Inr c \<Rightarrow> (Inr (), close (commit c)))"

text \<open>
  \<open>generate_batch_id\<close> formats the system clock; what it returns, and the time stamps
  that the inserted rows get, are inputs here.
\<close>

definition save_statements ::
  "codec \<Rightarrow> string \<Rightarrow> clock \<Rightarrow> analysis_results \<Rightarrow> (connection \<Rightarrow> error + connection) list" where
  "save_statements cdc batch_id now res =
     map (\<lambda>r. execute_insert (insert_site batch_id now r)) (valid_data res)
     @ [execute_insert (insert_log cdc batch_id now res)]
     @ map (\<lambda>bad. execute_insert (insert_invalid batch_id now bad)) (invalid_records res)"

definition save_analysis_to_database ::
  "codec \<Rightarrow> string \<Rightarrow> clock \<Rightarrow> analysis_results \<Rightarrow> database \<Rightarrow> (error + string) \<times> database" where
  "save_analysis_to_database cdc batch_id now res db =
     (case init_database db of
        (Inl e, db1) \<Rightarrow> (Inl e, db1)
      | (Inr u, db1) \<Rightarrow>
          (case run (save_statements cdc batch_id now res) (connect db1) of
             Inl (e, c) \<Rightarrow> (Inl e, close c)
           | Inr c \<Rightarrow> (Inr batch_id, close (commit c))))"




text \<open>
  The dictionaries that \<open>get_sites_by_region\<close> and \<open>get_all_sites\<close> return, of the five
  columns that they select. \<open>ORDER BY\<close> compares integers by value and text byte by
  byte, which is the order of the code points; SQL leaves the order among rows of equal
  keys open, and they are taken in the order of the table, as \<^const>\<open>sort_key\<close> keeps them.
  \<open>if batch_id:\<close> holds for a string that is not empty.
\<close>

record site_entry =
  found_city :: string
  found_region :: string
  found_num_sites :: int
  found_created_at :: string
  found_batch_id :: string

definition select_site :: "site_row \<Rightarrow> site_entry" where
  "select_site r =
     \<lparr>found_city = site_city r, found_region = site_region r,
      found_num_sites = site_num_sites r, found_created_at = site_created_at r,
      found_batch_id = site_batch_id r\<rparr>"

definition get_sites_by_region :: "string \<Rightarrow> database \<Rightarrow> error + site_entry list" where
  "get_sites_by_region g db =
     (if \<not> is_table db ''galamsay_sites'' then
        Inl (OperationalError ''no such table: galamsay_sites'')
      else
        Inr (map select_site
               (sort_key (\<lambda>r. - site_num_sites r)
                  (filter (\<lambda>r. site_region r = g) (galamsay_sites db)))))"

definition get_all_sites :: "string option \<Rightarrow> database \<Rightarrow> error + site_entry list" where
  "get_all_sites batch_id db =
     (if \<not> is_table db ''galamsay_sites'' then
        Inl (OperationalError ''no such table: galamsay_sites'')
      else
        (case batch_id of
           Some b \<Rightarrow>
             if b \<noteq> [] then
               Inr (map select_site
                      (sort_key (\<lambda>r. (site_region r, site_city r))
                         (filter (\<lambda>r. site_batch_id r = b) (galamsay_sites db))))
             else
               Inr (map select_site
                      (sort_key (\<lambda>r. (site_region r, site_city r)) (galamsay_sites db)))
         | None \<Rightarrow>
             Inr (map select_site
                    (sort_key (\<lambda>r. (site_region r, site_city r)) (galamsay_sites db)))))"

section \<open>Notions used in the statements\<close>

text \<open>
  The total of a region over a list of records; the elements of a list in the order of
  their first occurrence, which is the key order of a dictionary filled from the list;
  and the invariant of a valid record in the data model.
\<close>

definition region_sum :: "valid_record list \<Rightarrow> string \<Rightarrow> int" where
  "region_sum records g = sum_list (map num_sites (filter (\<lambda>r. region r = g) records))"

fun nub :: "'a list \<Rightarrow> 'a list" where
  "nub [] = []"
| "nub (x # xs) = x # filter (\<lambda>y. y \<noteq> x) (nub xs)"

definition valid_invariant :: "valid_record \<Rightarrow> bool" where
  "valid_invariant g = (region g \<in> set valid_regions \<and> 0 \<le> num_sites g \<and> num_sites g \<le> 500)"

text \<open>
  The outcome of a row whose three fields are text: the checks on its trimmed fields.
\<close>

definition outcome :: "nat \<Rightarrow> raw_row \<Rightarrow> invalid_record + valid_record" where
  "outcome k r =
     check_row k r (field r ''City'') (field r ''Region'') (field r ''Number_of_Galamsay_Sites'')"

definition row_outcomes :: "nat \<Rightarrow> raw_row list \<Rightarrow> (invalid_record + valid_record) list" where
  "row_outcomes n rs = map (\<lambda>(k, r). outcome k r) (enumerate n rs)"

text \<open>A line with the three fields given, and a short line that ends after the region.\<close>

definition csv_row :: "string \<Rightarrow> string \<Rightarrow> string \<Rightarrow> raw_row" where
  "csv_row c g n =
     [''City'' \<mapsto> Text c, ''Region'' \<mapsto> Text g, ''Number_of_Galamsay_Sites'' \<mapsto> Text n]"

definition short_row :: raw_row where
  "short_row =
     [''City'' \<mapsto> Text ''Kumasi'', ''Region'' \<mapsto> Text ''Ashanti'',
      ''Number_of_Galamsay_Sites'' \<mapsto> NoneValue]"

definition example_rows :: "raw_row list" where
  "example_rows =
     [csv_row '' Kumasi '' ''Ashanti'' ''25'', csv_row ''Obuasi'' ''Ashanti'' ''-5'',
      csv_row ''Tamale'' ''Northern'' ''+1_000'', csv_row ''Accra'' ''Greater Accra'' '' abc'',
      csv_row ''Tarkwa'' ''Western'' ''0'']"

definition none_has_no_strip :: error where
  "none_has_no_strip =
     AttributeError (repr_str ''NoneType'' @ '' object has no attribute '' @ repr_str ''strip'')"

text \<open>A small input, and what the pipeline returns for it at threshold 10.\<close>

definition example_valid :: "valid_record list" where
  "example_valid =
     [\<lparr>city = ''Kumasi'', region = ''Ashanti'', num_sites = 25\<rparr>,
      \<lparr>city = ''Tamale'', region = ''Northern'', num_sites = 7\<rparr>,
      \<lparr>city = ''Obuasi'', region = ''Ashanti'', num_sites = 15\<rparr>]"

definition example_bad_row :: raw_row where
  "example_bad_row = csv_row ''BadCity'' '''' ''10''"

definition example_source :: csv_source where
  "example_source =
     CsvRows (Some [''City'', ''Region'', ''Number_of_Galamsay_Sites''])
       [csv_row ''Kumasi'' ''Ashanti'' ''25'', example_bad_row,
        csv_row ''Tamale'' ''Northern'' ''7'', csv_row ''Obuasi'' ''Ashanti'' ''15'']
       None"

definition example_results :: analysis_results where
  "example_results =
     \<lparr>total_sites = 47, total_valid_records = 3, total_invalid_records = 1,
      region_with_highest_sites = \<lparr>highest_region = ''Ashanti'', highest_total_sites = 40\<rparr>,
      cities_above_threshold =
        \<lparr>above_threshold = 10, above_count = 2,
         above_cities = [\<lparr>city = ''Kumasi'', region = ''Ashanti'', num_sites = 25\<rparr>,
                         \<lparr>city = ''Obuasi'', region = ''Ashanti'', num_sites = 15\<rparr>]\<rparr>,
      average_sites_per_region = [(''Ashanti'', 20), (''Northern'', 7)],
      region_summary =
        [\<lparr>stats_region = ''Ashanti'', stats_total_sites = 40, city_count = 2,
          average_sites = 20, max_sites = 25, min_sites = 15\<rparr>,
         \<lparr>stats_region = ''Northern'', stats_total_sites = 7, city_count = 1,
          average_sites = 7, max_sites = 7, min_sites = 7\<rparr>],
      invalid_records = [\<lparr>row = 3, data = example_bad_row, reason = ''Missing region''\<rparr>],
      valid_data = example_valid\<rparr>"

section \<open>Notions used in the statements about the store\<close>

text \<open>
  Statements run one after the other on the content of a database; the six schema
  statements of \<open>init_database\<close> and the \<open>INSERT\<close> statements of
  \<open>save_analysis_to_database\<close> in the order of the source.
\<close>

fun exec_all :: "(database \<Rightarrow> error + database) list \<Rightarrow> database \<Rightarrow> error \<times> database + database" where
  "exec_all [] d = Inr d"
| "exec_all (s # ss) d = (case s d of Inl e \<Rightarrow> Inl (e, d) | Inr d' \<Rightarrow> exec_all ss d')"

definition schema_statements :: "(database \<Rightarrow> error + database) list" where
  "schema_statements =
     [create_table_if_not_exists ''galamsay_sites'',
      create_table_if_not_exists ''analysis_log'',
      create_table_if_not_exists ''invalid_records'',
      create_index_if_not_exists ''idx_galamsay_region'' ''galamsay_sites'' ''region'',
      create_index_if_not_exists ''idx_galamsay_batch'' ''galamsay_sites'' ''batch_id'',
      create_index_if_not_exists ''idx_analysis_batch'' ''analysis_log'' ''batch_id'']"

definition insert_statements ::
  "codec \<Rightarrow> string \<Rightarrow> clock \<Rightarrow> analysis_results \<Rightarrow> (database \<Rightarrow> error + database) list" where
  "insert_statements cdc batch_id now res =
     map (insert_site batch_id now) (valid_data res)
     @ [insert_log cdc batch_id now res]
     @ map (insert_invalid batch_id now) (invalid_records res)"

text \<open>
  The schema that \<open>init_database\<close> establishes; two contents with the same rows; and a
  content whose schema extends that of another, with the same rows.
\<close>

definition is_index :: "database \<Rightarrow> string \<Rightarrow> bool" where
  "is_index db name = (case map_of (sqlite_master db) name of Some (Index t c) \<Rightarrow> True | _ \<Rightarrow> False)"


definition rows_eq :: "database \<Rightarrow> database \<Rightarrow> bool" where
  "rows_eq a b =
     (galamsay_sites a = galamsay_sites b \<and> analysis_log a = analysis_log b
      \<and> invalid_records_table a = invalid_records_table b
      \<and> sites_seq a = sites_seq b \<and> log_seq a = log_seq b \<and> invalid_seq a = invalid_seq b)"

definition schema_grows :: "database \<Rightarrow> database \<Rightarrow> bool" where
  "schema_grows a b =
     (rows_eq a b
      \<and> (\<forall>n. is_table a n \<longrightarrow> is_table b n) \<and> (\<forall>n. is_index a n \<longrightarrow> is_index b n)
      \<and> (distinct (map fst (sqlite_master a)) \<longrightarrow> distinct (map fst (sqlite_master b))))"


text \<open>
  The rows that a batch adds to the tables \<open>galamsay_sites\<close> and \<open>invalid_records\<close>,
  after the last \<open>id\<close> \<open>n\<close> given out.
\<close>

definition new_site_rows :: "string \<Rightarrow> clock \<Rightarrow> nat \<Rightarrow> valid_record list \<Rightarrow> site_row list" where
  "new_site_rows batch_id now n rs =
     map (\<lambda>(k, r). \<lparr>site_id = k, site_city = city r, site_region = region r,
                     site_num_sites = num_sites r,
                     site_created_at = now ''galamsay_sites'' k,
                     site_batch_id = batch_id\<rparr>)
       (enumerate (Suc n) rs)"

definition new_invalid_rows :: "string \<Rightarrow> clock \<Rightarrow> nat \<Rightarrow> invalid_record list \<Rightarrow> invalid_row list" where
  "new_invalid_rows batch_id now n bads =
     map (\<lambda>(k, bad). \<lparr>bad_id = k, bad_batch_id = batch_id, bad_row_number = int (row bad),
                       bad_city = dict_get (data bad) ''City'' (Text ''''),
                       bad_region = dict_get (data bad) ''Region'' (Text ''''),
                       bad_num_sites_raw =
                         dict_get (data bad) ''Number_of_Galamsay_Sites'' (Text ''''),
                       bad_reason = reason bad,
                       bad_created_at = now ''invalid_records'' k\<rparr>)
       (enumerate (Suc n) bads)"

text \<open>
  The invariant of the data model on a stored row and on a row that a query returns,
  and the stores that the pipeline produces: from the empty file, by \<open>init_database\<close>
  and by saving what \<open>run_full_analysis\<close> returned.
\<close>

definition site_invariant :: "site_row \<Rightarrow> bool" where
  "site_invariant r =
     valid_invariant \<lparr>city = site_city r, region = site_region r, num_sites = site_num_sites r\<rparr>"

definition entry_invariant :: "site_entry \<Rightarrow> bool" where
  "entry_invariant e =
     valid_invariant \<lparr>city = found_city e, region = found_region e, num_sites = found_num_sites e\<rparr>"

inductive pipeline_store :: "database \<Rightarrow> bool" where
  empty: "pipeline_store empty_database"
| init: "pipeline_store db \<Longrightarrow> init_database db = (out, db') \<Longrightarrow> pipeline_store db'"
| save: "pipeline_store db \<Longrightarrow> run_full_analysis header_order src thr = Inr res
           \<Longrightarrow> save_analysis_to_database cdc batch_id now res db = (saved, db')
           \<Longrightarrow> pipeline_store db'"

text \<open>
  The example of above saved into an empty file: the texts that \<open>json.dumps\<close> gives for
  its three collections, a codec that is \<open>json\<close> on these texts, a clock, and the
  content of the file afterwards.
\<close>

definition quoted :: "string \<Rightarrow> string" where
  "quoted s = CHR 0x22 # s @ [CHR 0x22]"

definition example_averages_text :: string where
  "example_averages_text =
     ''{'' @ quoted ''Ashanti'' @ '': 20.0, '' @ quoted ''Northern'' @ '': 7.0}''"

definition example_summary_text :: string where
  "example_summary_text =
     ''[{'' @ quoted ''region'' @ '': '' @ quoted ''Ashanti'' @ '', ''
       @ quoted ''total_sites'' @ '': 40, '' @ quoted ''city_count'' @ '': 2, ''
       @ quoted ''average_sites'' @ '': 20.0, '' @ quoted ''max_sites'' @ '': 25, ''
       @ quoted ''min_sites'' @ '': 15}, {''
       @ quoted ''region'' @ '': '' @ quoted ''Northern'' @ '', ''
       @ quoted ''total_sites'' @ '': 7, '' @ quoted ''city_count'' @ '': 1, ''
       @ quoted ''average_sites'' @ '': 7.0, '' @ quoted ''max_sites'' @ '': 7, ''
       @ quoted ''min_sites'' @ '': 7}]''"

definition example_cities_text :: string where
  "example_cities_text =
     ''[{'' @ quoted ''city'' @ '': '' @ quoted ''Kumasi'' @ '', ''
       @ quoted ''region'' @ '': '' @ quoted ''Ashanti'' @ '', ''
       @ quoted ''num_sites'' @ '': 25}, {''
       @ quoted ''city'' @ '': '' @ quoted ''Obuasi'' @ '', ''
       @ quoted ''region'' @ '': '' @ quoted ''Ashanti'' @ '', ''
       @ quoted ''num_sites'' @ '': 15}]''"

definition example_averages_object :: json where
  "example_averages_object = JObj [(''Ashanti'', JFloat 20), (''Northern'', JFloat 7)]"

definition example_summary_object :: json where
  "example_summary_object =
     JArr [JObj [(''region'', JStr ''Ashanti''), (''total_sites'', JInt 40),
                 (''city_count'', JInt 2), (''average_sites'', JFloat 20),
                 (''max_sites'', JInt 25), (''min_sites'', JInt 15)],
           JObj [(''region'', JStr ''Northern''), (''total_sites'', JInt 7),
                 (''city_count'', JInt 1), (''average_sites'', JFloat 7),
                 (''max_sites'', JInt 7), (''min_sites'', JInt 7)]]"

definition example_cities_object :: json where
  "example_cities_object =
     JArr [JObj [(''city'', JStr ''Kumasi''), (''region'', JStr ''Ashanti''),
                 (''num_sites'', JInt 25)],
           JObj [(''city'', JStr ''Obuasi''), (''region'', JStr ''Ashanti''),
                 (''num_sites'', JInt 15)]]"

definition example_codec :: codec where
  "example_codec =
     \<lparr>dumps = (\<lambda>j. if j = example_averages_object then example_averages_text
                    else if j = example_summary_object then example_summary_text
                    else if j = example_cities_object then example_cities_text
                    else if j = JArr [] then ''[]''
                    else ''null''),
      loads = (\<lambda>s. if s = example_averages_text then Inr example_averages_object
                    else if s = example_summary_text then Inr example_summary_object
                    else if s = example_cities_text then Inr example_cities_object
                    else if s = ''[]'' then Inr (JArr [])
                    else if s = ''null'' then Inr JNull
                    else Inl (ValueError ''Expecting value''))\<rparr>"

definition example_clock :: clock where
  "example_clock = (\<lambda>t n. ''2025-12-01 10:15:00'')"

definition example_schema :: "(string \<times> schema_object) list" where
  "example_schema =
     [(''galamsay_sites'', Table), (''analysis_log'', Table), (''invalid_records'', Table),
      (''idx_galamsay_region'', Index ''galamsay_sites'' ''region''),
      (''idx_galamsay_batch'', Index ''galamsay_sites'' ''batch_id''),
      (''idx_analysis_batch'', Index ''analysis_log'' ''batch_id'')]"

definition example_log_row :: log_row where
  "example_log_row =
     \<lparr>log_id = 1, log_batch_id = ''20251201_101500_000042'',
      log_analysis_timestamp = ''2025-12-01 10:15:00'',
      log_total_sites = 47, log_total_valid_records = 3, log_total_invalid_records = 1,
      log_highest_region = ''Ashanti'', log_highest_region_sites = 40,
      log_threshold_used = 10, log_cities_above_threshold_count = 2,
      average_per_region_json = example_averages_text,
      region_summary_json = example_summary_text,
      cities_above_threshold_json = example_cities_text\<rparr>"

definition example_site_rows :: "site_row list" where
  "example_site_rows =
     [\<lparr>site_id = 1, site_city = ''Kumasi'', site_region = ''Ashanti'', site_num_sites = 25,
       site_created_at = ''2025-12-01 10:15:00'', site_batch_id = ''20251201_101500_000042''\<rparr>,
      \<lparr>site_id = 2, site_city = ''Tamale'', site_region = ''Northern'', site_num_sites = 7,
       site_created_at = ''2025-12-01 10:15:00'', site_batch_id = ''20251201_101500_000042''\<rparr>,
      \<lparr>site_id = 3, site_city = ''Obuasi'', site_region = ''Ashanti'', site_num_sites = 15,
       site_created_at = ''2025-12-01 10:15:00'', site_batch_id = ''20251201_101500_000042''\<rparr>]"

definition example_saved :: database where
  "example_saved =
     \<lparr>sqlite_master = example_schema,
      galamsay_sites = example_site_rows,
      analysis_log = [example_log_row],
      invalid_records_table =
        [\<lparr>bad_id = 1, bad_batch_id = ''20251201_101500_000042'', bad_row_number = 3,
          bad_city = Text ''BadCity'', bad_region = Text '''', bad_num_sites_raw = Text ''10'',
          bad_reason = ''Missing region'', bad_created_at = ''2025-12-01 10:15:00''\<rparr>],
      sites_seq = 3, log_seq = 1, invalid_seq = 1\<rparr>"

text \<open>
  The same result with a threshold beyond the 64-bit integers, as \<open>run_full_analysis\<close>
  returns it for that threshold: its log row cannot be bound.
\<close>

definition example_overflow :: analysis_results where
  "example_overflow =
     example_results
       \<lparr>cities_above_threshold :=
          \<lparr>above_threshold = 2 ^ 63, above_count = 0, above_cities = []\<rparr>\<rparr>"


section \<open>Properties of the validator\<close>

lemma and_then_simps [simp]:
  "and_then (Inl e) f = Inl e"
  "and_then (Inr v) f = f v"
  by (simp_all add: and_then_def)

lemma text_row_cells:
  assumes "text_row r"
  shows "str_strip (dict_get r ''City'' (Text '''')) = Inr (field r ''City'')"
    and "str_strip (dict_get r ''Region'' (Text '''')) = Inr (field r ''Region'')"
    and "str_strip (dict_get r ''Number_of_Galamsay_Sites'' (Text ''''))
           = Inr (field r ''Number_of_Galamsay_Sites'')"
  using assms
  by (auto simp: text_row_def required_headers_def str_strip_def field_def split: cell.splits)

lemma validate_row_text_row: "text_row r \<Longrightarrow> validate_row k r = Inr (outcome k r)"
  by (simp add: validate_row_def outcome_def text_row_cells)

lemma validate_rows_text_rows:
  "list_all text_row rs \<Longrightarrow>
     validate_rows n rs v i = Inr (v @ rights (row_outcomes n rs), i @ lefts (row_outcomes n rs))"
  by (induction rs arbitrary: n v i)
    (auto simp: row_outcomes_def validate_row_text_row split: sum.splits)

lemma length_lefts_rights: "length (lefts xs) + length (rights xs) = length xs"
  by (induction xs rule: lefts.induct) auto

lemma rights_Nil_iff: "rights xs = [] \<longleftrightarrow> list_all isl xs"
  by (induction xs rule: rights.induct) auto

lemma length_row_outcomes: "length (row_outcomes n rs) = length rs"
  by (simp add: row_outcomes_def enumerate_eq_zip)

text \<open>
  The checks of the loop body are the rule of the specification: the six checks in
  their precedence, the first failing one giving the one recorded reason in its fixed
  format, and a row passing all six giving one valid record.
\<close>

lemma outcome_first_failure: "outcome k r = spec_validate k r"
  by (auto simp: outcome_def check_row_def spec_validate_def precedence_def parsed_count_def
      split: option.splits)

lemma validate_row_refines: "text_row r \<Longrightarrow> validate_row k r = Inr (spec_validate k r)"
  by (simp add: validate_row_text_row outcome_first_failure)

text \<open>
  The number parser and the number printer on the literals that the reasons quote, and
  the trimming of the white space that is not ASCII.
\<close>

lemma py_int_examples:
  "py_int ''25'' = Some 25"
  "py_int '' 007 '' = Some 7"
  "py_int ''-5'' = Some (- 5)"
  "py_int ''+1_000'' = Some 1000"
  "py_int ''-0'' = Some 0"
  "py_int '''' = None"
  "py_int ''12.5'' = None"
  "py_int ''1e3'' = None"
  "py_int ''5 sites'' = None"
  "py_int ''--5'' = None"
  "py_int ''1__0'' = None"
  "py_int ''_1'' = None"
  "py_int ''1_'' = None"
  "py_int ''- 5'' = None"
  by (simp_all add: py_int_def strip_def is_space_def digits.simps is_digit_def digit_val_def
      limited_def int_max_str_digits_def)

lemma str_int_examples:
  "str_int 0 = ''0''"
  "str_int (- 5) = ''-5''"
  "str_int 501 = ''501''"
  "str_int 1000 = ''1000''"
  by (simp_all add: str_int_def str_nat.simps digit_char_def char_of_eq_iff)

lemma strip_examples:
  "strip [CHR 0xA0, CHR ''a'', CHR '' '', CHR ''b'', CHR 0x85, CHR 0x09] = ''a b''"
  "strip ''  '' = ''''"
  by (simp_all add: strip_def is_space_def)

lemma strip_id:
  assumes "s \<noteq> []" and "\<not> is_space (hd s)" and "\<not> is_space (last s)"
  shows "strip s = s"
proof -
  have "dropWhile is_space s = s"
    using assms by (cases s) auto
  moreover have "dropWhile is_space (rev s) = rev s"
    using assms by (cases s rule: rev_cases) auto
  ultimately show ?thesis by (simp add: strip_def)
qed

text \<open>
  A literal of at most 4300 digits is read, and a longer one is refused; here on the
  literals \<open>1\<close>, \<open>11\<close>, \<open>111\<close> and so on.
\<close>

lemma digits_replicate:
  "digits acc n prev (replicate k CHR ''1'') =
     (if k = 0 then (if prev then Some (acc, n) else None)
      else Some (acc * 10 ^ k + (10 ^ k - 1) div 9, n + k))"
proof (induction k arbitrary: acc n prev)
  case 0
  show ?case by simp
next
  case (Suc k)
  have d: "((10::int) * 10 ^ k - 1) div 9 = (10 ^ k - 1) div 9 + 10 ^ k" for k :: nat
  proof -
    have "(9::int) dvd 10 ^ k - 1"
      by (induction k) (auto simp: algebra_simps intro: dvd_diff)
    then obtain q :: int where q: "10 ^ k - 1 = 9 * q" by (auto simp: dvd_def)
    then have p: "(10::int) ^ k = 9 * q + 1" by simp
    have "(10 * 10 ^ k - 1 :: int) = 9 * (q + 10 ^ k)"
      using p by simp
    then show "((10::int) * 10 ^ k - 1) div 9 = (10 ^ k - 1) div 9 + 10 ^ k"
      using q by simp
  qed
  show ?case
    by (simp add: Suc.IH is_digit_def digit_val_def d algebra_simps)
qed

lemma py_int_digit_limit:
  "py_int (replicate (Suc k) CHR ''1'') =
     (if 4300 < Suc k then None else Some ((10 ^ Suc k - 1) div 9))"
proof -
  have s: "strip (replicate (Suc k) CHR ''1'') = replicate (Suc k) CHR ''1''"
    by (rule strip_id) (simp_all add: is_space_def del: replicate_Suc)
  have d: "digits 0 0 False (CHR ''1'' # replicate k CHR ''1'')
      = Some ((10 ^ Suc k - 1) div 9, Suc k)"
    using digits_replicate [of 0 0 False "Suc k"] by simp
  show ?thesis
    unfolding py_int_def s
    by (simp add: d limited_def int_max_str_digits_def del: digits.simps)
qed

text \<open>The seven outcomes of a row, with the reasons as the source formats them.\<close>

lemma validate_row_examples:
  "validate_row 2 (csv_row '' Kumasi '' ''Ashanti'' '' 25 '')
     = Inr (Inr \<lparr>city = ''Kumasi'', region = ''Ashanti'', num_sites = 25\<rparr>)"
  "validate_row 3 (csv_row ''  '' ''Ashanti'' ''25'')
     = Inr (Inl \<lparr>row = 3, data = csv_row ''  '' ''Ashanti'' ''25'',
                  reason = ''Missing city name''\<rparr>)"
  "validate_row 4 (csv_row ''Kumasi'' '''' ''25'')
     = Inr (Inl \<lparr>row = 4, data = csv_row ''Kumasi'' '''' ''25'', reason = ''Missing region''\<rparr>)"
  "validate_row 5 (csv_row ''Kumasi'' ''ashanti'' ''25'')
     = Inr (Inl \<lparr>row = 5, data = csv_row ''Kumasi'' ''ashanti'' ''25'',
                  reason = ''Invalid region: ashanti''\<rparr>)"
  "validate_row 6 (csv_row ''Kumasi'' ''Ashanti'' ''12.5'')
     = Inr (Inl \<lparr>row = 6, data = csv_row ''Kumasi'' ''Ashanti'' ''12.5'',
                  reason = ''Non-numeric site count: 12.5''\<rparr>)"
  "validate_row 7 (csv_row ''Kumasi'' ''Ashanti'' ''-5'')
     = Inr (Inl \<lparr>row = 7, data = csv_row ''Kumasi'' ''Ashanti'' ''-5'',
                  reason = ''Negative site count: -5''\<rparr>)"
  "validate_row 8 (csv_row ''Kumasi'' ''Ashanti'' ''501'')
     = Inr (Inl \<lparr>row = 8, data = csv_row ''Kumasi'' ''Ashanti'' ''501'',
                  reason = ''Unrealistic site count (outlier): 501''\<rparr>)"
  by (simp_all add: validate_row_def csv_row_def dict_get_def str_strip_def strip_def
      is_space_def check_row_def valid_regions_def py_int_examples str_int_examples
      py_int_def digits.simps is_digit_def digit_val_def limited_def int_max_str_digits_def)

lemma text_row_csv_row: "text_row (csv_row c g n)"
  by (simp add: text_row_def csv_row_def required_headers_def dict_get_def)

lemma short_row_raises: "validate_row k short_row = Inl none_has_no_strip"
  by (simp add: validate_row_def short_row_def dict_get_def str_strip_def none_has_no_strip_def)

section \<open>The claims about the validator\<close>

text \<open>
  C1, as the code has it by design. On a header and rows that the CSV reader delivers
  without error, every row with text in the three required columns, \<open>load_data\<close>
  raises \<open>ValueError\<close> exactly when a required column is missing from the header or no
  row passes validation, which includes the empty row sequence. Otherwise it raises
  nothing: it returns the valid records and the invalid records, each row giving
  exactly one entry of one of the two lists, in input order.
\<close>

theorem load_data_result:
  assumes "list_all text_row rs"
  shows "load_data header_order (CsvRows hdr rs None) =
     (if \<not> set required_headers \<subseteq> set (case hdr of None \<Rightarrow> [] | Some fs \<Rightarrow> fs) then
        Inl (ValueError (''CSV file missing required headers: '' @ str_set header_order))
      else if list_all isl (row_outcomes 2 rs) then
        Inl (ValueError ''No valid data records found in the file'')
      else Inr (rights (row_outcomes 2 rs), lefts (row_outcomes 2 rs)))
   \<and> length (rights (row_outcomes 2 rs)) + length (lefts (row_outcomes 2 rs)) = length rs"
proof -
  have "length (rights (row_outcomes 2 rs)) + length (lefts (row_outcomes 2 rs)) = length rs"
    using length_lefts_rights [of "row_outcomes 2 rs"] by (simp add: length_row_outcomes)
  moreover have "load_data header_order (CsvRows hdr rs None) =
     (if \<not> set required_headers \<subseteq> set (case hdr of None \<Rightarrow> [] | Some fs \<Rightarrow> fs) then
        Inl (ValueError (''CSV file missing required headers: '' @ str_set header_order))
      else if list_all isl (row_outcomes 2 rs) then
        Inl (ValueError ''No valid data records found in the file'')
      else Inr (rights (row_outcomes 2 rs), lefts (row_outcomes 2 rs)))"
    using assms by (simp add: load_data_def validate_rows_text_rows rights_Nil_iff)
  ultimately show ?thesis by blast
qed

text \<open>
  The theorem at five rows, of which three are malformed, and at a header without the
  count column.
\<close>

theorem load_data_result_witness:
  "list_all text_row example_rows
   \<and> load_data [''Region'', ''City'', ''Number_of_Galamsay_Sites'']
       (CsvRows (Some [''City'', ''Region'', ''Number_of_Galamsay_Sites'']) example_rows None)
     = Inr ([\<lparr>city = ''Kumasi'', region = ''Ashanti'', num_sites = 25\<rparr>,
             \<lparr>city = ''Tarkwa'', region = ''Western'', num_sites = 0\<rparr>],
            [\<lparr>row = 3, data = csv_row ''Obuasi'' ''Ashanti'' ''-5'',
              reason = ''Negative site count: -5''\<rparr>,
             \<lparr>row = 4, data = csv_row ''Tamale'' ''Northern'' ''+1_000'',
              reason = ''Unrealistic site count (outlier): 1000''\<rparr>,
             \<lparr>row = 5, data = csv_row ''Accra'' ''Greater Accra'' '' abc'',
              reason = ''Non-numeric site count: abc''\<rparr>])
   \<and> load_data [''Region'', ''City'', ''Number_of_Galamsay_Sites'']
       (CsvRows (Some [''City'', ''Region'']) example_rows None)
     = Inl (ValueError
         (''CSV file missing required headers: {'' @ [CHR 0x27] @ ''Region'' @ [CHR 0x27]
          @ '', '' @ [CHR 0x27] @ ''City'' @ [CHR 0x27]
          @ '', '' @ [CHR 0x27] @ ''Number_of_Galamsay_Sites'' @ [CHR 0x27] @ ''}''))"
  using
    load_data_result [of example_rows "[''Region'', ''City'', ''Number_of_Galamsay_Sites'']"
      "Some [''City'', ''Region'', ''Number_of_Galamsay_Sites'']"]
    load_data_result [of example_rows "[''Region'', ''City'', ''Number_of_Galamsay_Sites'']"
      "Some [''City'', ''Region'']"]
  by (simp add: example_rows_def text_row_csv_row required_headers_def row_outcomes_def
      outcome_def field_def csv_row_def dict_get_def strip_def is_space_def check_row_def
      valid_regions_def py_int_def digits.simps is_digit_def digit_val_def limited_def
      int_max_str_digits_def str_int_examples str_set_def repr_str_def text_row_def)

text \<open>
  C1, as the specification words it, fails: a row sequence that is not empty under a
  complete header still aborts the whole operation when its only row is malformed
  (here the city is missing).
\<close>

theorem load_data_malformed_row_aborts:
  "[csv_row '''' ''Ashanti'' ''25''] \<noteq> []
   \<and> set required_headers \<subseteq> set [''City'', ''Region'', ''Number_of_Galamsay_Sites'']
   \<and> load_data [''City'', ''Region'', ''Number_of_Galamsay_Sites'']
       (CsvRows (Some [''City'', ''Region'', ''Number_of_Galamsay_Sites''])
          [csv_row '''' ''Ashanti'' ''25''] None)
     = Inl (ValueError ''No valid data records found in the file'')"
  by (simp add: load_data_def required_headers_def validate_row_def csv_row_def dict_get_def
      str_strip_def strip_def check_row_def)

text \<open>
  C2 fails on a short line. The reader gives the columns after the last field of a
  line the value \<open>None\<close>; \<open>row.get\<close> returns it, its default being for an absent key
  only, and \<open>.strip()\<close> raises \<open>AttributeError\<close>. The row is neither rejected with one
  of the six reasons nor made a valid record, and \<open>load_data\<close> ends with that exception
  although the row before it is valid.
\<close>

theorem short_row_raises_attribute_error:
  "validate_row 3 short_row
     = Inl (AttributeError
              (repr_str ''NoneType'' @ '' object has no attribute '' @ repr_str ''strip''))
   \<and> isl (validate_row 3 short_row)
   \<and> load_data [''City'', ''Region'', ''Number_of_Galamsay_Sites'']
       (CsvRows (Some [''City'', ''Region'', ''Number_of_Galamsay_Sites''])
          [csv_row ''Tamale'' ''Northern'' ''7'', short_row] None)
     = Inl (AttributeError
              (repr_str ''NoneType'' @ '' object has no attribute '' @ repr_str ''strip''))"
proof -
  have v: "validate_row k short_row
     = Inl (AttributeError
              (repr_str ''NoneType'' @ '' object has no attribute '' @ repr_str ''strip''))"
    for k
    using short_row_raises [of k] by (simp add: none_has_no_strip_def)
  have g: "validate_row 2 (csv_row ''Tamale'' ''Northern'' ''7'')
     = Inr (Inr \<lparr>city = ''Tamale'', region = ''Northern'', num_sites = 7\<rparr>)"
    by (simp add: validate_row_def csv_row_def dict_get_def str_strip_def strip_def
        is_space_def check_row_def valid_regions_def py_int_def digits.simps is_digit_def
        digit_val_def limited_def int_max_str_digits_def)
  show ?thesis
    by (simp add: v g load_data_def required_headers_def)
qed

section \<open>Properties of the aggregator\<close>

lemma set_nub [simp]: "set (nub xs) = set xs"
  by (induction xs) auto

lemma distinct_nub [simp]: "distinct (nub xs)"
  by (induction xs) auto

lemma nub_append: "nub (xs @ ys) = nub xs @ filter (\<lambda>y. y \<notin> set xs) (nub ys)"
proof (induction xs)
  case Nil show ?case by simp
next
  case (Cons x xs)
  have "filter (\<lambda>y. y \<noteq> x) (filter (\<lambda>y. y \<notin> set xs) (nub ys))
        = filter (\<lambda>y. y \<noteq> x \<and> y \<notin> set xs) (nub ys)"
    by (simp add: conj_commute)
  with Cons show ?case by simp
qed

lemma max_by_cases:
  "(max_by f b xs = b \<and> (\<forall>y\<in>set xs. f y \<le> f b)) \<or>
   (\<exists>l1 l2. xs = l1 @ max_by f b xs # l2 \<and> f b < f (max_by f b xs) \<and>
      (\<forall>y\<in>set l1. f y < f (max_by f b xs)) \<and> (\<forall>y\<in>set l2. f y \<le> f (max_by f b xs)))"
proof (induction xs arbitrary: b)
  case Nil show ?case by simp
next
  case (Cons x xs)
  let ?b = "if f b < f x then x else b"
  let ?m = "max_by f ?b xs"
  have m: "max_by f b (x # xs) = ?m" by simp
  from Cons [of ?b] consider
    (keep) "?m = ?b" "\<forall>y\<in>set xs. f y \<le> f ?b"
  | (later) l1 l2 where "xs = l1 @ ?m # l2" "f ?b < f ?m"
      "\<forall>y\<in>set l1. f y < f ?m" "\<forall>y\<in>set l2. f y \<le> f ?m"
    by blast
  then show ?case
  proof cases
    case keep
    show ?thesis
    proof (cases "f b < f x")
      case True
      with keep have "x # xs = [] @ max_by f b (x # xs) # xs" "f b < f (max_by f b (x # xs))"
        "\<forall>y\<in>set xs. f y \<le> f (max_by f b (x # xs))" by auto
      then show ?thesis by (metis empty_iff list.set(1))
    next
      case False
      with keep show ?thesis by auto
    qed
  next
    case later
    have "x # xs = (x # l1) @ max_by f b (x # xs) # l2" using later(1) by simp
    moreover have "f b < f (max_by f b (x # xs))" using later(2) by (auto split: if_splits)
    moreover have "\<forall>y\<in>set (x # l1). f y < f (max_by f b (x # xs))"
      using later(2,3) by (auto split: if_splits)
    moreover have "\<forall>y\<in>set l2. f y \<le> f (max_by f b (x # xs))" using later(4) by simp
    ultimately show ?thesis by blast
  qed
qed

lemma max_by_first:
  "\<exists>l1 l2. b # xs = l1 @ max_by f b xs # l2 \<and>
      (\<forall>y\<in>set l1. f y < f (max_by f b xs)) \<and> (\<forall>y\<in>set l2. f y \<le> f (max_by f b xs))"
proof -
  from max_by_cases [of f b xs] show ?thesis
  proof
    assume a: "max_by f b xs = b \<and> (\<forall>y\<in>set xs. f y \<le> f b)"
    then have "b # xs = [] @ max_by f b xs # xs" by simp
    with a show ?thesis by (metis empty_iff list.set(1))
  next
    assume "\<exists>l1 l2. xs = l1 @ max_by f b xs # l2 \<and> f b < f (max_by f b xs) \<and>
      (\<forall>y\<in>set l1. f y < f (max_by f b xs)) \<and> (\<forall>y\<in>set l2. f y \<le> f (max_by f b xs))"
    then obtain l1 l2 where h: "xs = l1 @ max_by f b xs # l2" "f b < f (max_by f b xs)"
      "\<forall>y\<in>set l1. f y < f (max_by f b xs)" "\<forall>y\<in>set l2. f y \<le> f (max_by f b xs)" by blast
    have "b # xs = (b # l1) @ max_by f b xs # l2" using h(1) by simp
    moreover have "\<forall>y\<in>set (b # l1). f y < f (max_by f b xs)" using h(2,3) by simp
    ultimately show ?thesis using h(4) by blast
  qed
qed

lemma region_totals_keys:
  "map fst (region_totals rs d) = map fst d @ filter (\<lambda>g. g \<notin> fst ` set d) (nub (map region rs))"
proof (induction rs arbitrary: d)
  case Nil show ?case by simp
next
  case (Cons r rs)
  let ?d = "AList.update (region r) (odict_get d (region r) 0 + num_sites r) d"
  have keys: "map fst ?d = (if region r \<in> fst ` set d then map fst d else map fst d @ [region r])"
    by (simp add: update_keys)
  have dom: "fst ` set ?d = insert (region r) (fst ` set d)"
    by (simp add: dom_update)
  show ?case
  proof (cases "region r \<in> fst ` set d")
    case True
    then have "filter (\<lambda>g. g \<notin> fst ` set d) (filter (\<lambda>y. y \<noteq> region r) (nub (map region rs)))
             = filter (\<lambda>g. g \<notin> fst ` set d) (nub (map region rs))"
      by (auto intro!: filter_cong)
    with True show ?thesis
      using Cons [of ?d] keys dom by (simp add: insert_absorb)
  next
    case False
    have "filter (\<lambda>g. g \<notin> insert (region r) (fst ` set d)) (nub (map region rs))
        = filter (\<lambda>g. g \<notin> fst ` set d) (filter (\<lambda>y. y \<noteq> region r) (nub (map region rs)))"
      by (auto intro!: filter_cong)
    with False show ?thesis
      using Cons [of ?d] keys dom by simp
  qed
qed

lemma region_totals_lookup:
  "map_of (region_totals rs d) g =
     (if g \<in> fst ` set d \<union> region ` set rs then Some (odict_get d g 0 + region_sum rs g) else None)"
proof (induction rs arbitrary: d)
  case Nil
  show ?case
    by (auto simp: region_sum_def odict_get_def map_of_eq_None_iff split: option.splits)
next
  case (Cons r rs)
  let ?d = "AList.update (region r) (odict_get d (region r) 0 + num_sites r) d"
  have dom: "fst ` set ?d = insert (region r) (fst ` set d)"
    by (simp add: dom_update)
  have get: "odict_get ?d g 0 = (if g = region r then odict_get d g 0 + num_sites r else odict_get d g 0)"
    by (simp add: odict_get_def update_conv')
  have sum: "region_sum (r # rs) g = (if region r = g then num_sites r else 0) + region_sum rs g"
    by (simp add: region_sum_def)
  show ?case
    using Cons [of ?d] by (auto simp: dom get sum)
qed

lemma region_totals_distinct: "distinct (map fst (region_totals rs []))"
  by (simp add: region_totals_keys)

lemma region_totals_member:
  assumes "(g, t) \<in> set (region_totals rs [])"
  shows "t = region_sum rs g" and "g \<in> region ` set rs"
proof -
  have "map_of (region_totals rs []) g = Some t"
    using assms region_totals_distinct by (simp add: map_of_eq_Some_iff)
  then show "t = region_sum rs g" and "g \<in> region ` set rs"
    by (auto simp: region_totals_lookup odict_get_def split: if_splits)
qed

lemma region_totals_has:
  assumes "x \<in> set rs"
  shows "(region x, region_sum rs (region x)) \<in> set (region_totals rs [])"
proof -
  have "map_of (region_totals rs []) (region x) = Some (region_sum rs (region x))"
    using assms by (simp add: region_totals_lookup odict_get_def)
  then show ?thesis by (rule map_of_SomeD)
qed

lemma highest_region_nonempty:
  assumes ne: "records \<noteq> []"
  shows "\<exists>g t pre r post.
        get_region_with_highest_sites records = Inr (g, t)
      \<and> records = pre @ r # post \<and> region r = g \<and> g \<notin> region ` set pre
      \<and> t = region_sum records g
      \<and> (\<forall>x\<in>set records. region_sum records (region x) \<le> t)
      \<and> (\<forall>x\<in>set pre. region_sum records (region x) < t)"
proof -
  let ?l = "region_totals records []"
  from ne obtain x0 where x0: "x0 \<in> set records" by (cases records) auto
  then have "?l \<noteq> []" using region_totals_has by fastforce
  then obtain b xs where l: "?l = b # xs" by (cases ?l) auto
  let ?m = "max_by snd b xs"
  have res: "get_region_with_highest_sites records = Inr ?m"
    using ne l by (simp add: get_region_with_highest_sites_def py_max_def)
  obtain l1 l2 where split: "b # xs = l1 @ ?m # l2"
    and before: "\<forall>y\<in>set l1. snd y < snd ?m" and after: "\<forall>y\<in>set l2. snd y \<le> snd ?m"
    using max_by_first [of b xs snd] by blast
  obtain g t where m: "?m = (g, t)" by (cases ?m)
  have mem: "(g, t) \<in> set ?l" using l split m by simp
  have t: "t = region_sum records g" and g: "g \<in> region ` set records"
    using region_totals_member [OF mem] by simp_all
  from g have "\<exists>x\<in>set records. region x = g" by auto
  then obtain pre r post where recs: "records = pre @ r # post" and r: "region r = g"
    and pre: "\<forall>y\<in>set pre. region y \<noteq> g"
    using split_list_first_prop [of records "\<lambda>x. region x = g"] by blast
  have gpre: "g \<notin> region ` set pre" using pre by auto
  have all: "\<forall>x\<in>set records. region_sum records (region x) \<le> t"
  proof
    fix x assume "x \<in> set records"
    then have "(region x, region_sum records (region x)) \<in> set (l1 @ ?m # l2)"
      using region_totals_has l split by metis
    then show "region_sum records (region x) \<le> t"
      using before after m by fastforce
  qed
  have keys1: "map fst ?l = map fst l1 @ g # map fst l2"
    using l split m by simp
  have keys2: "map fst ?l = nub (map region pre) @
      g # filter (\<lambda>y. y \<noteq> g) (filter (\<lambda>y. y \<notin> region ` set pre) (nub (map region post)))"
    using gpre by (simp add: region_totals_keys recs r nub_append filter_filter conj_commute)
  have d: "distinct (map fst l1 @ g # map fst l2)"
    using region_totals_distinct [of records] keys1 by simp
  let ?rest = "filter (\<lambda>y. y \<noteq> g) (filter (\<lambda>y. y \<notin> region ` set pre) (nub (map region post)))"
  have eq: "nub (map region pre) @ g # ?rest = map fst l1 @ g # map fst l2"
    using keys1 keys2 by simp
  have "g \<notin> set (nub (map region pre))" using gpre by simp
  moreover have "g \<notin> set ?rest" by simp
  ultimately have "nub (map region pre) = map fst l1"
    using eq append_Cons_eq_iff [of g "nub (map region pre)" ?rest "map fst l1" "map fst l2"]
    by blast
  then have "map fst l1 = nub (map region pre)" by simp
  then have in1: "region x \<in> fst ` set l1" if "x \<in> set pre" for x
    using that by (metis image_eqI list.set_map set_nub)
  have first: "\<forall>x\<in>set pre. region_sum records (region x) < t"
  proof
    fix x assume x: "x \<in> set pre"
    then obtain v where v: "(region x, v) \<in> set l1" using in1 by fastforce
    then have "(region x, v) \<in> set ?l" using l split by simp
    then have "v = region_sum records (region x)" using region_totals_member(1) by blast
    moreover have "v < t" using before v m by fastforce
    ultimately show "region_sum records (region x) < t" by simp
  qed
  from res m have res': "get_region_with_highest_sites records = Inr (g, t)" by simp
  have "get_region_with_highest_sites records = Inr (g, t)
      \<and> records = pre @ r # post \<and> region r = g \<and> g \<notin> region ` set pre
      \<and> t = region_sum records g
      \<and> (\<forall>x\<in>set records. region_sum records (region x) \<le> t)
      \<and> (\<forall>x\<in>set pre. region_sum records (region x) < t)"
    using res' recs r gpre t all first by (intro conjI)
  then show ?thesis by (intro exI)
qed

lemma check_row_invariant: "check_row k r c g s = Inr v \<Longrightarrow> valid_invariant v"
  by (auto simp: check_row_def valid_invariant_def split: if_splits option.splits)

lemma validate_row_invariant: "validate_row k r = Inr (Inr v) \<Longrightarrow> valid_invariant v"
  by (auto simp: validate_row_def and_then_def dest: check_row_invariant split: sum.splits)

lemma validate_rows_invariant:
  "validate_rows n rs v i = Inr (v', i') \<Longrightarrow> list_all valid_invariant v
     \<Longrightarrow> list_all valid_invariant v'"
proof (induction rs arbitrary: n v i)
  case Nil
  then show ?case by simp
next
  case (Cons r rs)
  show ?case
  proof (cases "validate_row n r")
    case (Inl e)
    with Cons.prems show ?thesis by simp
  next
    case (Inr out)
    show ?thesis
    proof (cases out)
      case (Inl bad)
      with Inr Cons.prems Cons.IH [of "Suc n" v "i @ [bad]"] show ?thesis by simp
    next
      case (Inr good)
      with \<open>validate_row n r = Inr out\<close> have "valid_invariant good"
        by (simp add: validate_row_invariant)
      with Inr \<open>validate_row n r = Inr out\<close> Cons.prems Cons.IH [of "Suc n" "v @ [good]" i]
      show ?thesis by simp
    qed
  qed
qed

lemma load_data_invariant:
  assumes "load_data header_order src = Inr (v, i)"
  shows "list_all valid_invariant v"
proof (cases src)
  case (CsvRows hdr rs err)
  with assms have "validate_rows 2 rs [] [] = Inr (v, i)"
    by (auto simp: load_data_def split: if_splits option.splits sum.splits)
  from validate_rows_invariant [OF this] show ?thesis by simp
qed (use assms in \<open>simp_all add: load_data_def\<close>)

lemma cities_above_subset:
  "get_cities_above_threshold records thr = Inr ys \<Longrightarrow> set ys \<subseteq> set records"
  by (auto simp: get_cities_above_threshold_def split: if_splits)

lemma run_full_analysis_parts:
  assumes "run_full_analysis header_order src thr = Inr res"
  shows "\<exists>v i ys. load_data header_order src = Inr (v, i) \<and> get_cities_above_threshold v thr = Inr ys
     \<and> valid_data res = v \<and> invalid_records res = i
     \<and> total_sites res = get_total_sites v
     \<and> total_valid_records res = length v \<and> total_invalid_records res = length i
     \<and> cities_above_threshold res =
         \<lparr>above_threshold = thr, above_count = length ys, above_cities = ys\<rparr>"
  using assms unfolding run_full_analysis_def
  by (auto split: sum.splits prod.splits)

lemma example_load:
  "load_data header_order example_source =
     Inr (example_valid, [\<lparr>row = 3, data = example_bad_row, reason = ''Missing region''\<rparr>])"
  by (simp add: example_source_def example_valid_def example_bad_row_def load_data_def
      required_headers_def validate_row_def csv_row_def dict_get_def str_strip_def strip_def
      check_row_def valid_regions_def py_int_def limited_def int_max_str_digits_def
      is_digit_def digit_val_def is_space_def)

lemma example_highest: "get_region_with_highest_sites example_valid = Inr (''Ashanti'', 40)"
  by (simp add: example_valid_def get_region_with_highest_sites_def py_max_def odict_get_def)

lemma example_above:
  "get_cities_above_threshold example_valid 10 =
     Inr [\<lparr>city = ''Kumasi'', region = ''Ashanti'', num_sites = 25\<rparr>,
          \<lparr>city = ''Obuasi'', region = ''Ashanti'', num_sites = 15\<rparr>]"
  by (simp add: example_valid_def get_cities_above_threshold_def)

lemma example_averages:
  "get_average_sites_per_region example_valid = Inr [(''Ashanti'', 20), (''Northern'', 7)]"
  unfolding example_valid_def by code_simp

lemma example_summary:
  "get_region_summary example_valid =
     Inr [\<lparr>stats_region = ''Ashanti'', stats_total_sites = 40, city_count = 2,
           average_sites = 20, max_sites = 25, min_sites = 15\<rparr>,
          \<lparr>stats_region = ''Northern'', stats_total_sites = 7, city_count = 1,
           average_sites = 7, max_sites = 7, min_sites = 7\<rparr>]"
  unfolding example_valid_def by code_simp

lemma py_min_list_example: "py_min_list [6, 4, 9, 4] = Inr 4" "py_max_list [6, 4, 9, 4] = Inr 9"
  by (simp_all add: py_min_list_def py_max_list_def)

lemma example_run: "run_full_analysis header_order example_source 10 = Inr example_results"
  by (simp add: run_full_analysis_def example_load example_highest example_above
      example_averages example_summary example_results_def)
    (simp add: example_valid_def get_total_sites_def)

text \<open>
  C3. \<open>get_region_with_highest_sites\<close> raises \<open>ValueError\<close> on the empty list. On any
  other list it returns a pair \<open>(g, t)\<close> where \<open>g\<close> is the region of some record, \<open>t\<close> is
  the sum of the site counts of the records of \<open>g\<close>, no region has a larger sum, and
  every region whose first record stands before the first record of \<open>g\<close> has a strictly
  smaller sum: among the regions of maximal total, the first encountered wins. On the
  specification's example the result is \<open>(Ashanti, 40)\<close>.
\<close>

theorem highest_region_correct:
  "get_region_with_highest_sites [] =
     Inl (ValueError ''Cannot determine highest region from empty data'')
   \<and> (records \<noteq> [] \<longrightarrow>
        (\<exists>g t pre r post.
            get_region_with_highest_sites records = Inr (g, t)
          \<and> records = pre @ r # post \<and> region r = g \<and> g \<notin> region ` set pre
          \<and> t = region_sum records g
          \<and> (\<forall>x\<in>set records. region_sum records (region x) \<le> t)
          \<and> (\<forall>x\<in>set pre. region_sum records (region x) < t)))
   \<and> get_region_with_highest_sites
        [\<lparr>city = ''Kumasi'', region = ''Ashanti'', num_sites = 25\<rparr>,
         \<lparr>city = ''Obuasi'', region = ''Ashanti'', num_sites = 15\<rparr>,
         \<lparr>city = ''Accra'', region = ''Greater Accra'', num_sites = 30\<rparr>]
      = Inr (''Ashanti'', 40)"
proof -
  have empty: "get_region_with_highest_sites [] =
      Inl (ValueError ''Cannot determine highest region from empty data'')"
    by (simp add: get_region_with_highest_sites_def)
  have example: "get_region_with_highest_sites
        [\<lparr>city = ''Kumasi'', region = ''Ashanti'', num_sites = 25\<rparr>,
         \<lparr>city = ''Obuasi'', region = ''Ashanti'', num_sites = 15\<rparr>,
         \<lparr>city = ''Accra'', region = ''Greater Accra'', num_sites = 30\<rparr>]
      = Inr (''Ashanti'', 40)"
    by (simp add: get_region_with_highest_sites_def py_max_def odict_get_def)
  from empty example highest_region_nonempty [of records] show ?thesis by blast
qed

text \<open>
  At a tie the first region encountered is returned, here \<open>Western\<close> before \<open>Ashanti\<close>.
\<close>

theorem highest_region_correct_witness:
  "[\<lparr>city = ''Tarkwa'', region = ''Western'', num_sites = 30\<rparr>,
    \<lparr>city = ''Kumasi'', region = ''Ashanti'', num_sites = 30\<rparr>] \<noteq> []
   \<and> get_region_with_highest_sites
        [\<lparr>city = ''Tarkwa'', region = ''Western'', num_sites = 30\<rparr>,
         \<lparr>city = ''Kumasi'', region = ''Ashanti'', num_sites = 30\<rparr>]
      = Inr (''Western'', 30)"
  using highest_region_correct
    [of "[\<lparr>city = ''Tarkwa'', region = ''Western'', num_sites = 30\<rparr>,
          \<lparr>city = ''Kumasi'', region = ''Ashanti'', num_sites = 30\<rparr>]"]
  by (simp add: get_region_with_highest_sites_def py_max_def odict_get_def)

text \<open>
  C4. \<open>get_cities_above_threshold\<close> raises \<open>ValueError\<close> for every negative threshold,
  whatever the records. For a threshold that is not negative it returns exactly the
  records with a site count strictly above the threshold (as a multiset), in
  descending order of site count, and the records of any one site count stand in the
  order they have in the input.
\<close>

theorem cities_above_threshold_correct:
  "(thr < 0 \<longrightarrow>
      get_cities_above_threshold records thr = Inl (ValueError ''Threshold cannot be negative''))
   \<and> (0 \<le> thr \<longrightarrow>
        (\<exists>ys. get_cities_above_threshold records thr = Inr ys
           \<and> mset ys = mset (filter (\<lambda>r. thr < num_sites r) records)
           \<and> sorted_wrt (\<lambda>a b. num_sites b \<le> num_sites a) ys
           \<and> (\<forall>k. filter (\<lambda>r. num_sites r = k) ys =
                    filter (\<lambda>r. num_sites r = k) (filter (\<lambda>r. thr < num_sites r) records))))"
proof -
  let ?sel = "filter (\<lambda>r. thr < num_sites r) records"
  let ?ys = "sort_key (\<lambda>r. - num_sites r) ?sel"
  have "sorted (map (\<lambda>r. - num_sites r) ?ys)" by (rule sorted_sort_key)
  then have desc: "sorted_wrt (\<lambda>a b. num_sites b \<le> num_sites a) ?ys"
    by (simp add: sorted_map)
  have stable: "filter (\<lambda>r. num_sites r = k) ?ys = filter (\<lambda>r. num_sites r = k) ?sel" for k
    using sort_key_stable [of "\<lambda>r. - num_sites r" "- k" ?sel] by simp
  have "mset ?ys = mset ?sel" by simp
  with desc stable show ?thesis
    by (simp add: get_cities_above_threshold_def)
qed

theorem cities_above_threshold_witness:
  "(0::int) \<le> 10
   \<and> get_cities_above_threshold
        [\<lparr>city = ''A'', region = ''Ashanti'', num_sites = 25\<rparr>,
         \<lparr>city = ''B'', region = ''Central'', num_sites = 30\<rparr>,
         \<lparr>city = ''C'', region = ''Bono'', num_sites = 25\<rparr>,
         \<lparr>city = ''D'', region = ''Volta'', num_sites = 10\<rparr>] 10
      = Inr [\<lparr>city = ''B'', region = ''Central'', num_sites = 30\<rparr>,
             \<lparr>city = ''A'', region = ''Ashanti'', num_sites = 25\<rparr>,
             \<lparr>city = ''C'', region = ''Bono'', num_sites = 25\<rparr>]
   \<and> (- 5::int) < 0
   \<and> get_cities_above_threshold [] (- 5) = Inl (ValueError ''Threshold cannot be negative'')"
  using cities_above_threshold_correct [of 10
        "[\<lparr>city = ''A'', region = ''Ashanti'', num_sites = 25\<rparr>,
         \<lparr>city = ''B'', region = ''Central'', num_sites = 30\<rparr>,
         \<lparr>city = ''C'', region = ''Bono'', num_sites = 25\<rparr>,
         \<lparr>city = ''D'', region = ''Volta'', num_sites = 10\<rparr>]"]
    cities_above_threshold_correct [of "- 5" "[]"]
  by (simp add: get_cities_above_threshold_def)

text \<open>
  C10. The counts of a result of \<open>run_full_analysis\<close> agree with its lists:
  \<open>total_valid_records\<close> and \<open>total_invalid_records\<close> are the lengths of \<open>valid_data\<close>
  and \<open>invalid_records\<close>, \<open>total_sites\<close> is the sum of \<open>num_sites\<close> over \<open>valid_data\<close>,
  the count of the cities above the threshold is the length of their list, and the
  threshold recorded is the one passed in.
\<close>

theorem run_full_analysis_consistent:
  assumes "run_full_analysis header_order src thr = Inr res"
  shows "total_valid_records res = length (valid_data res)
     \<and> total_invalid_records res = length (invalid_records res)
     \<and> total_sites res = sum_list (map num_sites (valid_data res))
     \<and> above_count (cities_above_threshold res) = length (above_cities (cities_above_threshold res))
     \<and> above_threshold (cities_above_threshold res) = thr"
proof -
  obtain v i ys where p: "valid_data res = v" "invalid_records res = i"
      "total_sites res = get_total_sites v"
      "total_valid_records res = length v" "total_invalid_records res = length i"
      "cities_above_threshold res =
         \<lparr>above_threshold = thr, above_count = length ys, above_cities = ys\<rparr>"
    using run_full_analysis_parts [OF assms] by blast
  have "get_total_sites v = sum_list (map num_sites v)"
    by (simp add: get_total_sites_def)
  with p show ?thesis by simp
qed

theorem run_full_analysis_consistent_witness:
  "run_full_analysis required_headers example_source 10 = Inr example_results
   \<and> total_valid_records example_results = length (valid_data example_results)
   \<and> total_invalid_records example_results = length (invalid_records example_results)
   \<and> total_sites example_results = sum_list (map num_sites (valid_data example_results))
   \<and> above_count (cities_above_threshold example_results) =
       length (above_cities (cities_above_threshold example_results))
   \<and> above_threshold (cities_above_threshold example_results) = 10"
  using run_full_analysis_consistent [OF example_run [of required_headers]]
    example_run [of required_headers]
  by simp

section \<open>Properties of the store\<close>

lemma run_append:
  "run (xs @ ys) c = (case run xs c of Inl ec \<Rightarrow> Inl ec | Inr c' \<Rightarrow> run ys c')"
  by (induction xs arbitrary: c) (auto split: sum.splits)

lemma exec_all_append:
  "exec_all (xs @ ys) d = (case exec_all xs d of Inl ed \<Rightarrow> Inl ed | Inr d' \<Rightarrow> exec_all ys d')"
  by (induction xs arbitrary: d) (auto split: sum.splits)

lemma schema_grows_refl: "schema_grows d d"
  by (simp add: schema_grows_def rows_eq_def)

lemma schema_grows_trans: "schema_grows a b \<Longrightarrow> schema_grows b c \<Longrightarrow> schema_grows a c"
  by (auto simp: schema_grows_def rows_eq_def)

lemma map_of_append_new:
  "map_of xs k = None \<Longrightarrow> ([k \<mapsto> v] ++ map_of xs) k' = (if k' = k then Some v else map_of xs k')"
  by (auto simp: map_add_def split: option.splits)

lemma create_table_grows:
  assumes "create_table_if_not_exists n d = Inr d'"
  shows "schema_grows d d'" and "is_table d' n"
proof -
  show "is_table d' n"
    using assms
    by (auto simp: create_table_if_not_exists_def is_table_def map_add_def
        split: option.splits schema_object.splits)
  show "schema_grows d d'"
  proof (cases "map_of (sqlite_master d) n")
    case None
    then have d': "d' = d\<lparr>sqlite_master := sqlite_master d @ [(n, Table)]\<rparr>"
      using assms by (simp add: create_table_if_not_exists_def)
    have "n \<notin> fst ` set (sqlite_master d)" using None by (simp add: map_of_eq_None_iff)
    then show ?thesis
      using None unfolding d'
      by (auto simp: schema_grows_def rows_eq_def is_table_def is_index_def map_of_append_new)
  next
    case (Some a)
    then have "d' = d" using assms
      by (auto simp: create_table_if_not_exists_def split: schema_object.splits)
    then show ?thesis by (simp add: schema_grows_refl)
  qed
qed

lemma create_index_grows:
  assumes "create_index_if_not_exists n t col d = Inr d'"
  shows "schema_grows d d'" and "is_index d' n"
proof -
  show "is_index d' n"
    using assms
    by (auto simp: create_index_if_not_exists_def is_index_def map_add_def
        split: option.splits schema_object.splits if_splits)
  show "schema_grows d d'"
  proof (cases "map_of (sqlite_master d) n")
    case None
    then have d': "d' = d\<lparr>sqlite_master := sqlite_master d @ [(n, Index t col)]\<rparr>"
      using assms by (simp add: create_index_if_not_exists_def split: if_splits)
    have "n \<notin> fst ` set (sqlite_master d)" using None by (simp add: map_of_eq_None_iff)
    then show ?thesis
      using None unfolding d'
      by (auto simp: schema_grows_def rows_eq_def is_table_def is_index_def map_of_append_new)
  next
    case (Some a)
    then have "d' = d" using assms
      by (auto simp: create_index_if_not_exists_def split: schema_object.splits if_splits)
    then show ?thesis by (simp add: schema_grows_refl)
  qed
qed



lemma run_ddl:
  "run (map execute_ddl ss) \<lparr>committed = d, pending = d, in_transaction = False\<rparr> =
     (case exec_all ss d of
        Inl (e, d') \<Rightarrow> Inl (e, \<lparr>committed = d', pending = d', in_transaction = False\<rparr>)
      | Inr d' \<Rightarrow> Inr \<lparr>committed = d', pending = d', in_transaction = False\<rparr>)"
  by (induction ss arbitrary: d) (auto simp: execute_ddl_def split: sum.splits)

lemma init_database_eq:
  "init_database db =
     (case exec_all schema_statements db of
        Inl (e, d) \<Rightarrow> (Inl e, d)
      | Inr d \<Rightarrow> (Inr (), d))"
proof -
  have "init_database db =
     (case run (map execute_ddl schema_statements) (connect db) of
        Inl (e, c) \<Rightarrow> (Inl e, close c)
      | Inr c \<Rightarrow> (Inr (), close (commit c)))"
    by (simp add: init_database_def schema_statements_def)
  then show ?thesis
    by (simp add: connect_def run_ddl close_def commit_def split: sum.splits)
qed

lemma exec_all_schema_grows:
  assumes "\<forall>s\<in>set ss. \<forall>d d'. s d = Inr d' \<longrightarrow> schema_grows d d'"
  shows "(exec_all ss d = Inr d' \<longrightarrow> schema_grows d d')
       \<and> (exec_all ss d = Inl (e, d') \<longrightarrow> schema_grows d d')"
  using assms
proof (induction ss arbitrary: d)
  case Nil
  show ?case by (simp add: schema_grows_refl)
next
  case (Cons s ss)
  show ?case
  proof (cases "s d")
    case (Inl a)
    then show ?thesis by (auto simp: schema_grows_refl)
  next
    case (Inr d1)
    then have "schema_grows d d1" using Cons.prems by simp
    moreover have "(exec_all ss d1 = Inr d' \<longrightarrow> schema_grows d1 d')
       \<and> (exec_all ss d1 = Inl (e, d') \<longrightarrow> schema_grows d1 d')"
      using Cons.IH [of d1] Cons.prems by simp
    ultimately show ?thesis using Inr by (auto intro: schema_grows_trans)
  qed
qed

lemma schema_statements_grow:
  "\<forall>s\<in>set schema_statements. \<forall>d d'. s d = Inr d' \<longrightarrow> schema_grows d d'"
  by (auto simp: schema_statements_def intro: create_table_grows(1) create_index_grows(1))

lemma init_database_grows: "init_database db = (out, db') \<Longrightarrow> schema_grows db db'"
  using exec_all_schema_grows [OF schema_statements_grow, of db]
  by (auto simp: init_database_eq split: sum.splits)



lemma save_statements_eq:
  "save_statements cdc b now res = map execute_insert (insert_statements cdc b now res)"
  by (simp add: save_statements_def insert_statements_def o_def)

lemma run_insert_Cons:
  "run (execute_insert s # ss) c =
     (case s (pending c) of
        Inl e \<Rightarrow> Inl (e, c)
      | Inr d \<Rightarrow> run ss (c\<lparr>pending := d, in_transaction := True\<rparr>))"
  by (simp add: execute_insert_def split: sum.splits)

lemma run_insert_Inr:
  "run (map execute_insert ss) c = Inr c' \<Longrightarrow>
     committed c' = committed c \<and> exec_all ss (pending c) = Inr (pending c')"
proof (induction ss arbitrary: c)
  case Nil
  then show ?case by simp
next
  case (Cons s ss)
  from Cons.prems obtain d where d: "s (pending c) = Inr d"
    and rest: "run (map execute_insert ss) (c\<lparr>pending := d, in_transaction := True\<rparr>) = Inr c'"
    by (auto simp del: run.simps simp add: run_insert_Cons split: sum.splits)
  from Cons.IH [OF rest] d show ?case by simp
qed

lemma run_insert_Inl:
  "run (map execute_insert ss) c = Inl (e, c') \<Longrightarrow> committed c' = committed c"
proof (induction ss arbitrary: c)
  case Nil
  then show ?case by simp
next
  case (Cons s ss)
  show ?case
  proof (cases "s (pending c)")
    case (Inl a)
    with Cons.prems show ?thesis
      by (simp del: run.simps add: run_insert_Cons)
  next
    case (Inr d)
    with Cons.prems have
      "run (map execute_insert ss) (c\<lparr>pending := d, in_transaction := True\<rparr>) = Inl (e, c')"
      by (simp del: run.simps add: run_insert_Cons)
    from Cons.IH [OF this] show ?thesis by simp
  qed
qed

lemma exec_sites:
  "exec_all (map (insert_site b now) rs) d = Inr d' \<Longrightarrow>
     d' = d\<lparr>galamsay_sites := galamsay_sites d @ new_site_rows b now (sites_seq d) rs,
            sites_seq := sites_seq d + length rs\<rparr>"
proof (induction rs arbitrary: d)
  case Nil
  then show ?case by (simp add: new_site_rows_def)
next
  case (Cons r rs)
  from Cons.prems obtain d1 where s: "insert_site b now r d = Inr d1"
    and rest: "exec_all (map (insert_site b now) rs) d1 = Inr d'"
    by (auto split: sum.splits)
  from s have d1: "d1 = d\<lparr>galamsay_sites := galamsay_sites d @
                  [\<lparr>site_id = Suc (sites_seq d), site_city = city r, site_region = region r,
                    site_num_sites = num_sites r,
                    site_created_at = now ''galamsay_sites'' (Suc (sites_seq d)),
                    site_batch_id = b\<rparr>],
                sites_seq := Suc (sites_seq d)\<rparr>"
    by (auto simp: insert_site_def split: if_splits)
  show ?case
    using Cons.IH [OF rest] unfolding d1 by (simp add: new_site_rows_def)
qed

lemma exec_invalid:
  "exec_all (map (insert_invalid b now) bads) d = Inr d' \<Longrightarrow>
     d' = d\<lparr>invalid_records_table :=
              invalid_records_table d @ new_invalid_rows b now (invalid_seq d) bads,
            invalid_seq := invalid_seq d + length bads\<rparr>"
proof (induction bads arbitrary: d)
  case Nil
  then show ?case by (simp add: new_invalid_rows_def)
next
  case (Cons x bads)
  from Cons.prems obtain d1 where s: "insert_invalid b now x d = Inr d1"
    and rest: "exec_all (map (insert_invalid b now) bads) d1 = Inr d'"
    by (auto split: sum.splits)
  from s have d1: "d1 = d\<lparr>invalid_records_table := invalid_records_table d @
                  [\<lparr>bad_id = Suc (invalid_seq d), bad_batch_id = b,
                    bad_row_number = int (row x),
                    bad_city = dict_get (data x) ''City'' (Text ''''),
                    bad_region = dict_get (data x) ''Region'' (Text ''''),
                    bad_num_sites_raw =
                      dict_get (data x) ''Number_of_Galamsay_Sites'' (Text ''''),
                    bad_reason = reason x,
                    bad_created_at = now ''invalid_records'' (Suc (invalid_seq d))\<rparr>],
                invalid_seq := Suc (invalid_seq d)\<rparr>"
    by (auto simp: insert_invalid_def split: if_splits)
  show ?case
    using Cons.IH [OF rest] unfolding d1 by (simp add: new_invalid_rows_def)
qed

lemma exec_log:
  assumes "insert_log cdc b now res d = Inr d'"
  shows "d' = d\<lparr>analysis_log := analysis_log d @ [log_entry cdc b now res (Suc (log_seq d))],
                log_seq := Suc (log_seq d)\<rparr>"
    and "b \<notin> log_batch_id ` set (analysis_log d)"
    and "is_table d ''analysis_log''"
  using assms by (auto simp: insert_log_def Let_def split: if_splits)

lemma exec_insert_statements:
  assumes "exec_all (insert_statements cdc b now res) d = Inr d'"
  shows "galamsay_sites d' = galamsay_sites d @ new_site_rows b now (sites_seq d) (valid_data res)"
    and "analysis_log d' = analysis_log d @ [log_entry cdc b now res (Suc (log_seq d))]"
    and "invalid_records_table d' =
           invalid_records_table d @ new_invalid_rows b now (invalid_seq d) (invalid_records res)"
    and "sqlite_master d' = sqlite_master d"
    and "b \<notin> log_batch_id ` set (analysis_log d)"
    and "is_table d ''analysis_log''"
proof -
  from assms obtain d1 d2 where
    a: "exec_all (map (insert_site b now) (valid_data res)) d = Inr d1" and
    l: "insert_log cdc b now res d1 = Inr d2" and
    c: "exec_all (map (insert_invalid b now) (invalid_records res)) d2 = Inr d'"
    by (auto simp: insert_statements_def exec_all_append split: sum.splits)
  note e1 = exec_sites [OF a] and e2 = exec_log [OF l] and e3 = exec_invalid [OF c]
  show "galamsay_sites d' = galamsay_sites d @ new_site_rows b now (sites_seq d) (valid_data res)"
    unfolding e3 e2(1) e1 by simp
  show "analysis_log d' = analysis_log d @ [log_entry cdc b now res (Suc (log_seq d))]"
    unfolding e3 e2(1) e1 by simp
  show "invalid_records_table d' =
           invalid_records_table d @ new_invalid_rows b now (invalid_seq d) (invalid_records res)"
    unfolding e3 e2(1) e1 by simp
  show "sqlite_master d' = sqlite_master d"
    unfolding e3 e2(1) e1 by simp
  show "b \<notin> log_batch_id ` set (analysis_log d)"
    using e2(2) unfolding e1 by simp
  show "is_table d ''analysis_log''"
    using e2(3) unfolding e1 by (simp add: is_table_def)
qed

lemma save_failure:
  assumes "save_analysis_to_database cdc b now res db = (Inl e, db')"
  shows "rows_eq db db'"
proof (cases "init_database db")
  case (Pair out db1)
  then have g: "schema_grows db db1" by (rule init_database_grows)
  show ?thesis
  proof (cases out)
    case (Inl e1)
    with Pair assms have "db' = db1" by (simp add: save_analysis_to_database_def)
    with g show ?thesis by (simp add: schema_grows_def)
  next
    case (Inr u)
    with Pair assms obtain c where
      "run (map execute_insert (insert_statements cdc b now res)) (connect db1) = Inl (e, c)"
      and "db' = close c"
      by (auto simp: save_analysis_to_database_def save_statements_eq split: sum.splits)
    then have "db' = db1"
      using run_insert_Inl by (fastforce simp: close_def connect_def)
    with g show ?thesis by (simp add: schema_grows_def)
  qed
qed

lemma save_success:
  assumes "save_analysis_to_database cdc b now res db = (Inr bid, db')"
  shows "bid = b"
    and "galamsay_sites db' = galamsay_sites db @ new_site_rows b now (sites_seq db) (valid_data res)"
    and "analysis_log db' = analysis_log db @ [log_entry cdc b now res (Suc (log_seq db))]"
    and "invalid_records_table db' =
           invalid_records_table db @ new_invalid_rows b now (invalid_seq db) (invalid_records res)"
    and "b \<notin> log_batch_id ` set (analysis_log db)"
    and "is_table db' ''analysis_log''"
proof -
  obtain out db1 where i: "init_database db = (out, db1)" by (cases "init_database db")
  then have g: "schema_grows db db1" by (rule init_database_grows)
  from i assms obtain u where out: "out = Inr u"
    by (cases out) (auto simp: save_analysis_to_database_def)
  from i out assms obtain c where
    r: "run (map execute_insert (insert_statements cdc b now res)) (connect db1) = Inr c"
    and db': "db' = close (commit c)" and bid: "bid = b"
    by (auto simp: save_analysis_to_database_def save_statements_eq split: sum.splits)
  from run_insert_Inr [OF r] have
    ex: "exec_all (insert_statements cdc b now res) db1 = Inr (pending c)"
    by (simp add: connect_def)
  have p: "db' = pending c" using db' by (simp add: close_def commit_def)
  note st = exec_insert_statements [OF ex]
  have r: "rows_eq db db1" using g by (simp add: schema_grows_def)
  show "bid = b" by (rule bid)
  show "galamsay_sites db' = galamsay_sites db @ new_site_rows b now (sites_seq db) (valid_data res)"
    using st(1) r by (simp add: p rows_eq_def)
  show "analysis_log db' = analysis_log db @ [log_entry cdc b now res (Suc (log_seq db))]"
    using st(2) r by (simp add: p rows_eq_def)
  show "invalid_records_table db' =
           invalid_records_table db @ new_invalid_rows b now (invalid_seq db) (invalid_records res)"
    using st(3) r by (simp add: p rows_eq_def)
  show "b \<notin> log_batch_id ` set (analysis_log db)"
    using st(5) r by (simp add: rows_eq_def)
  show "is_table db' ''analysis_log''"
    using st(4,6) by (simp add: p is_table_def)
qed


lemma example_init:
  "init_database empty_database = (Inr (), empty_database\<lparr>sqlite_master := example_schema\<rparr>)"
  by (simp add: init_database_eq schema_statements_def empty_database_def example_schema_def
      create_table_if_not_exists_def create_index_if_not_exists_def is_table_def)

lemma example_objects:
  "average_per_region_object (average_sites_per_region example_results) = example_averages_object"
  "JArr (map region_stats_object (region_summary example_results)) = example_summary_object"
  "JArr (map valid_record_object (above_cities (cities_above_threshold example_results)))
     = example_cities_object"
  by (simp_all add: example_results_def average_per_region_object_def region_stats_object_def
      valid_record_object_def example_averages_object_def example_summary_object_def
      example_cities_object_def)


lemma example_objects_differ:
  "example_averages_object \<noteq> example_summary_object"
  "example_averages_object \<noteq> example_cities_object"
  "example_summary_object \<noteq> example_cities_object"
  by (simp_all add: example_averages_object_def example_summary_object_def
      example_cities_object_def)


lemma example_log_entry:
  "log_entry example_codec ''20251201_101500_000042'' example_clock example_results 1
     = example_log_row"
  using example_objects_differ
  by (simp add: log_entry_def example_objects example_log_row_def example_codec_def
      example_clock_def)
    (simp add: example_results_def)

lemma run_insert_all:
  "exec_all ss (pending c) = Inr d \<Longrightarrow> ss \<noteq> [] \<Longrightarrow>
     run (map execute_insert ss) c = Inr (c\<lparr>pending := d, in_transaction := True\<rparr>)"
proof (induction ss arbitrary: c)
  case Nil
  then show ?case by simp
next
  case (Cons s ss)
  from Cons.prems(1) obtain d1 where d1: "s (pending c) = Inr d1"
    and rest: "exec_all ss d1 = Inr d"
    by (auto split: sum.splits)
  show ?case
  proof (cases "ss = []")
    case True
    with d1 rest show ?thesis by (simp add: execute_insert_def)
  next
    case False
    have "run (map execute_insert ss) (c\<lparr>pending := d1, in_transaction := True\<rparr>)
        = Inr (c\<lparr>pending := d1, in_transaction := True\<rparr>\<lparr>pending := d, in_transaction := True\<rparr>)"
      using Cons.IH [of "c\<lparr>pending := d1, in_transaction := True\<rparr>"] rest False by simp
    with d1 show ?thesis
      by (simp del: run.simps add: run_insert_Cons)
  qed
qed

lemma run_insert_failure:
  "exec_all ss (pending c) = Inl (e, d) \<Longrightarrow>
     \<exists>c'. run (map execute_insert ss) c = Inl (e, c') \<and> committed c' = committed c"
proof (induction ss arbitrary: c)
  case Nil
  then show ?case by simp
next
  case (Cons s ss)
  show ?case
  proof (cases "s (pending c)")
    case (Inl a)
    with Cons.prems show ?thesis
      by (simp del: run.simps add: run_insert_Cons)
  next
    case (Inr d1)
    with Cons.prems have "exec_all ss d1 = Inl (e, d)" by simp
    from Cons.IH [of "c\<lparr>pending := d1, in_transaction := True\<rparr>"] this Inr
    show ?thesis
      by (simp del: run.simps add: run_insert_Cons)
  qed
qed

lemma example_inserts:
  "exec_all
     (insert_statements example_codec ''20251201_101500_000042'' example_clock
        example_results)
     (empty_database\<lparr>sqlite_master := example_schema\<rparr>)
   = Inr example_saved"
  using example_log_entry
  by (simp add: insert_statements_def example_results_def example_valid_def insert_site_def
      insert_log_def insert_invalid_def is_table_def example_schema_def int64_def
      example_bad_row_def csv_row_def dict_get_def empty_database_def example_saved_def
      example_log_row_def example_site_rows_def example_clock_def)

lemma example_save:
  "save_analysis_to_database example_codec ''20251201_101500_000042'' example_clock
     example_results empty_database
   = (Inr ''20251201_101500_000042'', example_saved)"
proof -
  let ?ss = "insert_statements example_codec ''20251201_101500_000042'' example_clock
        example_results"
  let ?d0 = "empty_database\<lparr>sqlite_master := example_schema\<rparr>"
  have ne: "?ss \<noteq> []"
    by (simp add: insert_statements_def)
  have "exec_all ?ss (pending (connect ?d0)) = Inr example_saved"
    using example_inserts by (simp add: connect_def)
  from run_insert_all [OF this ne] show ?thesis
    by (simp add: save_analysis_to_database_def example_init save_statements_eq connect_def
        commit_def close_def)
qed







text \<open>The rows of the pipeline's stores satisfy the invariant of the data model.\<close>

lemma run_full_analysis_invariant:
  assumes "run_full_analysis header_order src thr = Inr res"
  shows "list_all valid_invariant (valid_data res)"
    and "list_all valid_invariant (above_cities (cities_above_threshold res))"
proof -
  from assms obtain v i ys where p: "load_data header_order src = Inr (v, i)"
      "get_cities_above_threshold v thr = Inr ys" "valid_data res = v"
      "cities_above_threshold res =
         \<lparr>above_threshold = thr, above_count = length ys, above_cities = ys\<rparr>"
    using run_full_analysis_parts by blast
  have v: "list_all valid_invariant v" using p(1) by (rule load_data_invariant)
  then show "list_all valid_invariant (valid_data res)" using p(3) by simp
  have "set ys \<subseteq> set v" using p(2) by (rule cities_above_subset)
  with v show "list_all valid_invariant (above_cities (cities_above_threshold res))"
    using p(4) by (auto simp: list_all_iff)
qed

lemma new_site_rows_invariant:
  "list_all valid_invariant rs \<Longrightarrow> list_all site_invariant (new_site_rows b now n rs)"
  by (auto simp: new_site_rows_def list_all_iff site_invariant_def valid_invariant_def
      in_set_enumerate_eq)

lemma pipeline_store_invariant:
  "pipeline_store db \<Longrightarrow> list_all site_invariant (galamsay_sites db)"
proof (induction rule: pipeline_store.induct)
  case empty
  show ?case by (simp add: empty_database_def)
next
  case (init db out db')
  from init.hyps(2) have "schema_grows db db'" by (rule init_database_grows)
  with init.IH show ?case by (simp add: schema_grows_def rows_eq_def)
next
  case (save db header_order src thr res cdc batch_id now saved db')
  show ?case
  proof (cases saved)
    case (Inl e)
    with save.hyps(3) have "rows_eq db db'" by (simp add: save_failure)
    with save.IH show ?thesis by (simp add: rows_eq_def)
  next
    case (Inr bid)
    with save.hyps(3) have
      "galamsay_sites db' =
         galamsay_sites db @ new_site_rows batch_id now (sites_seq db) (valid_data res)"
      by (simp add: save_success(2))
    moreover have "list_all valid_invariant (valid_data res)"
      using save.hyps(2) by (rule run_full_analysis_invariant(1))
    ultimately show ?thesis
      using save.IH by (simp add: new_site_rows_invariant)
  qed
qed

lemma get_sites_by_region_invariant:
  "list_all site_invariant (galamsay_sites db) \<Longrightarrow> get_sites_by_region g db = Inr rows
     \<Longrightarrow> list_all entry_invariant rows"
  by (auto simp: get_sites_by_region_def list_all_iff entry_invariant_def site_invariant_def
      select_site_def split: if_splits)

lemma get_all_sites_invariant:
  "list_all site_invariant (galamsay_sites db) \<Longrightarrow> get_all_sites b db = Inr rows
     \<Longrightarrow> list_all entry_invariant rows"
  by (auto simp: get_all_sites_def list_all_iff entry_invariant_def site_invariant_def
      select_site_def split: if_splits option.splits)

lemma example_pipeline_store: "pipeline_store example_saved"
  using pipeline_store.save [OF pipeline_store.empty example_run example_save] .

lemma example_overflow_save:
  "save_analysis_to_database example_codec ''20251201_101500_000042'' example_clock
     example_overflow empty_database
   = (Inl OverflowError, empty_database\<lparr>sqlite_master := example_schema\<rparr>)"
proof -
  let ?d0 = "empty_database\<lparr>sqlite_master := example_schema\<rparr>"
  let ?ss = "insert_statements example_codec ''20251201_101500_000042'' example_clock
        example_overflow"
  have sites: "exec_all (map (insert_site ''20251201_101500_000042'' example_clock) example_valid)
       ?d0 = Inr (?d0\<lparr>galamsay_sites := example_site_rows, sites_seq := 3\<rparr>)"
    by (simp add: example_valid_def insert_site_def is_table_def example_schema_def int64_def
        empty_database_def example_site_rows_def example_clock_def)
  have log: "insert_log example_codec ''20251201_101500_000042'' example_clock example_overflow
       (?d0\<lparr>galamsay_sites := example_site_rows, sites_seq := 3\<rparr>) = Inl OverflowError"
    by (simp add: insert_log_def log_entry_def example_overflow_def is_table_def
        example_schema_def int64_def empty_database_def)
  have vd: "valid_data example_overflow = example_valid"
    by (simp add: example_overflow_def example_results_def)
  have "exec_all ?ss ?d0
      = Inl (OverflowError, ?d0\<lparr>galamsay_sites := example_site_rows, sites_seq := 3\<rparr>)"
    by (simp add: insert_statements_def exec_all_append vd sites log)
  then obtain c where
    "run (map execute_insert ?ss) (connect ?d0) = Inl (OverflowError, c)"
    and "committed c = ?d0"
    using run_insert_failure [of ?ss "connect ?d0"] by (auto simp: connect_def)
  then show ?thesis
    by (simp add: save_analysis_to_database_def example_init save_statements_eq close_def)
qed

section \<open>The claims about the store\<close>



text \<open>
  C7. \<open>save_analysis_to_database\<close> writes all or nothing. When it raises, the three
  tables hold the rows they held before, so no row of the batch is visible. When it
  returns, it returns the batch identifier, and the tables hold their former rows
  followed by one site row for each valid record, the one log row, and one row for each
  invalid record; all these rows carry the batch identifier.
\<close>

theorem save_all_or_nothing:
  assumes "save_analysis_to_database cdc b now res db = (saved, db')"
  shows "case saved of
       Inl e \<Rightarrow>
         galamsay_sites db' = galamsay_sites db \<and> analysis_log db' = analysis_log db
         \<and> invalid_records_table db' = invalid_records_table db
     | Inr bid \<Rightarrow>
         bid = b
         \<and> galamsay_sites db' =
             galamsay_sites db @ new_site_rows b now (sites_seq db) (valid_data res)
         \<and> analysis_log db' = analysis_log db @ [log_entry cdc b now res (Suc (log_seq db))]
         \<and> invalid_records_table db' =
             invalid_records_table db
             @ new_invalid_rows b now (invalid_seq db) (invalid_records res)
         \<and> list_all (\<lambda>r. site_batch_id r = b)
             (new_site_rows b now (sites_seq db) (valid_data res))
         \<and> log_batch_id (log_entry cdc b now res (Suc (log_seq db))) = b
         \<and> list_all (\<lambda>r. bad_batch_id r = b)
             (new_invalid_rows b now (invalid_seq db) (invalid_records res))
         \<and> length (new_site_rows b now (sites_seq db) (valid_data res))
             = length (valid_data res)
         \<and> length (new_invalid_rows b now (invalid_seq db) (invalid_records res))
             = length (invalid_records res)"
proof (cases saved)
  case (Inl e)
  with assms have "rows_eq db db'" by (simp add: save_failure)
  with Inl show ?thesis by (simp add: rows_eq_def)
next
  case (Inr bid)
  note s = save_success [OF assms [unfolded Inr]]
  have t: "list_all (\<lambda>r. site_batch_id r = b)
             (new_site_rows b now (sites_seq db) (valid_data res))"
    "log_batch_id (log_entry cdc b now res (Suc (log_seq db))) = b"
    "list_all (\<lambda>r. bad_batch_id r = b)
             (new_invalid_rows b now (invalid_seq db) (invalid_records res))"
    "length (new_site_rows b now (sites_seq db) (valid_data res)) = length (valid_data res)"
    "length (new_invalid_rows b now (invalid_seq db) (invalid_records res))
       = length (invalid_records res)"
    by (auto simp: new_site_rows_def new_invalid_rows_def log_entry_def list_all_iff)
  from s(1-4) t Inr show ?thesis by simp
qed

theorem save_all_or_nothing_witness:
  "save_analysis_to_database example_codec ''20251201_101500_000042'' example_clock
     example_results empty_database
     = (Inr ''20251201_101500_000042'', example_saved)
   \<and> galamsay_sites example_saved = example_site_rows
   \<and> analysis_log example_saved = [example_log_row]
   \<and> length (invalid_records_table example_saved) = 1
   \<and> list_all (\<lambda>r. site_batch_id r = ''20251201_101500_000042'') example_site_rows
   \<and> save_analysis_to_database example_codec ''20251201_101500_000042'' example_clock
       example_overflow empty_database
     = (Inl OverflowError, empty_database\<lparr>sqlite_master := example_schema\<rparr>)
   \<and> galamsay_sites (empty_database\<lparr>sqlite_master := example_schema\<rparr>) = []
   \<and> analysis_log (empty_database\<lparr>sqlite_master := example_schema\<rparr>) = []
   \<and> invalid_records_table (empty_database\<lparr>sqlite_master := example_schema\<rparr>) = []"
  using save_all_or_nothing [OF example_save] save_all_or_nothing [OF example_overflow_save]
    example_save example_overflow_save
  by (simp add: example_saved_def example_site_rows_def empty_database_def)
    (simp add: example_results_def)



text \<open>
  C9. Every valid record that \<open>load_data\<close> returns has its region in the whitelist and
  a site count from 0 to 500. The operations downstream that hand on valid records
  keep it so: the two lists of records in the result of \<open>run_full_analysis\<close>, which
  are those that \<open>save_analysis_to_database\<close> stores and serializes;
  \<open>get_cities_above_threshold\<close> on such records; the rows of the table of sites in
  every store that the pipeline produces; and the rows that \<open>get_sites_by_region\<close> and
  \<open>get_all_sites\<close> read from such a store. The whitelist has 16 distinct regions.
\<close>

theorem valid_records_invariant:
  "(load_data header_order src = Inr (v, i) \<longrightarrow> (\<forall>g\<in>set v. valid_invariant g))
   \<and> (run_full_analysis header_order src thr = Inr res \<longrightarrow>
        (\<forall>g\<in>set (valid_data res) \<union> set (above_cities (cities_above_threshold res)).
           valid_invariant g))
   \<and> (list_all valid_invariant records \<and> get_cities_above_threshold records t = Inr ys \<longrightarrow>
        list_all valid_invariant ys)
   \<and> (pipeline_store db \<longrightarrow>
        list_all site_invariant (galamsay_sites db)
        \<and> (get_sites_by_region name db = Inr found \<longrightarrow> list_all entry_invariant found)
        \<and> (get_all_sites batch db = Inr listed \<longrightarrow> list_all entry_invariant listed))
   \<and> length valid_regions = 16 \<and> distinct valid_regions"
proof -
  have a: "load_data header_order src = Inr (v, i) \<longrightarrow> (\<forall>g\<in>set v. valid_invariant g)"
    using load_data_invariant by (auto simp: list_all_iff)
  have b: "run_full_analysis header_order src thr = Inr res \<longrightarrow>
        (\<forall>g\<in>set (valid_data res) \<union> set (above_cities (cities_above_threshold res)).
           valid_invariant g)"
    using run_full_analysis_invariant by (auto simp: list_all_iff)
  have c: "list_all valid_invariant records \<and> get_cities_above_threshold records t = Inr ys
      \<longrightarrow> list_all valid_invariant ys"
    using cities_above_subset [of records t ys] by (auto simp: list_all_iff)
  have d: "pipeline_store db \<longrightarrow>
        list_all site_invariant (galamsay_sites db)
        \<and> (get_sites_by_region name db = Inr found \<longrightarrow> list_all entry_invariant found)
        \<and> (get_all_sites batch db = Inr listed \<longrightarrow> list_all entry_invariant listed)"
    using pipeline_store_invariant get_sites_by_region_invariant get_all_sites_invariant
    by blast
  have e: "length valid_regions = 16 \<and> distinct valid_regions"
    by (simp add: valid_regions_def)
  from a b c d e show ?thesis by blast
qed

theorem valid_records_invariant_witness:
  "load_data required_headers example_source =
     Inr (example_valid, [\<lparr>row = 3, data = example_bad_row, reason = ''Missing region''\<rparr>])
   \<and> run_full_analysis required_headers example_source 10 = Inr example_results
   \<and> list_all valid_invariant example_valid
   \<and> get_cities_above_threshold example_valid 10 =
       Inr [\<lparr>city = ''Kumasi'', region = ''Ashanti'', num_sites = 25\<rparr>,
            \<lparr>city = ''Obuasi'', region = ''Ashanti'', num_sites = 15\<rparr>]
   \<and> pipeline_store example_saved
   \<and> list_all site_invariant example_site_rows
   \<and> get_sites_by_region ''Ashanti'' example_saved =
       Inr [\<lparr>found_city = ''Kumasi'', found_region = ''Ashanti'', found_num_sites = 25,
             found_created_at = ''2025-12-01 10:15:00'',
             found_batch_id = ''20251201_101500_000042''\<rparr>,
            \<lparr>found_city = ''Obuasi'', found_region = ''Ashanti'', found_num_sites = 15,
             found_created_at = ''2025-12-01 10:15:00'',
             found_batch_id = ''20251201_101500_000042''\<rparr>]
   \<and> get_all_sites None example_saved =
       Inr [\<lparr>found_city = ''Kumasi'', found_region = ''Ashanti'', found_num_sites = 25,
             found_created_at = ''2025-12-01 10:15:00'',
             found_batch_id = ''20251201_101500_000042''\<rparr>,
            \<lparr>found_city = ''Obuasi'', found_region = ''Ashanti'', found_num_sites = 15,
             found_created_at = ''2025-12-01 10:15:00'',
             found_batch_id = ''20251201_101500_000042''\<rparr>,
            \<lparr>found_city = ''Tamale'', found_region = ''Northern'', found_num_sites = 7,
             found_created_at = ''2025-12-01 10:15:00'',
             found_batch_id = ''20251201_101500_000042''\<rparr>]"
proof -
  have s: "get_sites_by_region ''Ashanti'' example_saved =
       Inr [\<lparr>found_city = ''Kumasi'', found_region = ''Ashanti'', found_num_sites = 25,
             found_created_at = ''2025-12-01 10:15:00'',
             found_batch_id = ''20251201_101500_000042''\<rparr>,
            \<lparr>found_city = ''Obuasi'', found_region = ''Ashanti'', found_num_sites = 15,
             found_created_at = ''2025-12-01 10:15:00'',
             found_batch_id = ''20251201_101500_000042''\<rparr>]"
    by (simp add: get_sites_by_region_def example_saved_def example_site_rows_def
        is_table_def example_schema_def select_site_def)
  have lt: "(''Ashanti'', ''Kumasi'') < (''Ashanti'', ''Obuasi'')"
    "(''Ashanti'', ''Obuasi'') < (''Northern'', ''Tamale'')"
    "(''Ashanti'', ''Kumasi'') < (''Northern'', ''Tamale'')"
    by (simp_all add: less_prod_def less_char_def)
  have l: "get_all_sites None example_saved =
       Inr [\<lparr>found_city = ''Kumasi'', found_region = ''Ashanti'', found_num_sites = 25,
             found_created_at = ''2025-12-01 10:15:00'',
             found_batch_id = ''20251201_101500_000042''\<rparr>,
            \<lparr>found_city = ''Obuasi'', found_region = ''Ashanti'', found_num_sites = 15,
             found_created_at = ''2025-12-01 10:15:00'',
             found_batch_id = ''20251201_101500_000042''\<rparr>,
            \<lparr>found_city = ''Tamale'', found_region = ''Northern'', found_num_sites = 7,
             found_created_at = ''2025-12-01 10:15:00'',
             found_batch_id = ''20251201_101500_000042''\<rparr>]"
    using lt
    by (simp add: get_all_sites_def example_saved_def example_site_rows_def
        is_table_def example_schema_def select_site_def insort_key.simps not_le less_imp_le)
  from valid_records_invariant [of required_headers example_source example_valid
      "[\<lparr>row = 3, data = example_bad_row, reason = ''Missing region''\<rparr>]" 10 example_results
      example_valid 10
      "[\<lparr>city = ''Kumasi'', region = ''Ashanti'', num_sites = 25\<rparr>,
        \<lparr>city = ''Obuasi'', region = ''Ashanti'', num_sites = 15\<rparr>]"
      example_saved "''Ashanti''" _ None]
    example_load [of required_headers] example_run [of required_headers]
    example_above example_pipeline_store s l
  show ?thesis
    by (simp add: example_valid_def example_saved_def example_site_rows_def
        valid_invariant_def valid_regions_def site_invariant_def)
qed

end
